theory Spec2Isabelle
  imports Main "HOL-Library.Char_ord" "HOL-Library.List_Lexorder"
begin

section \<open>Python strings\<close>

text \<open>
  A Python \<open>str\<close> is a sequence of code points. The model keeps the code points
  U+0000 to U+00FF: a \<^typ>\<open>string\<close> is the list of them, one \<^typ>\<open>char\<close> each, so
  \<^const>\<open>length\<close> counts what Python's \<open>len\<close> counts. The character classes below
  are the ones of CPython on that range (\<open>str.isspace\<close>, \<open>str.lower\<close>, the \<open>\w\<close>
  and \<open>\s\<close> of \<open>re\<close> on a \<open>str\<close> pattern). Strings with code points above
  U+00FF are outside the model.
\<close>

definition code_point :: "char \<Rightarrow> nat" where
  "code_point c = of_char c"

definition in_range :: "nat \<Rightarrow> nat \<Rightarrow> char \<Rightarrow> bool" where
  "in_range lo hi c = (lo \<le> code_point c \<and> code_point c \<le> hi)"

definition py_isspace :: "char \<Rightarrow> bool" where
  "py_isspace c = (in_range 9 13 c \<or> in_range 28 32 c \<or> code_point c = 133 \<or> code_point c = 160)"

definition is_upper_ascii :: "char \<Rightarrow> bool" where
  "is_upper_ascii c = in_range 65 90 c"

definition is_lower_ascii :: "char \<Rightarrow> bool" where
  "is_lower_ascii c = in_range 97 122 c"

definition is_digit_ascii :: "char \<Rightarrow> bool" where
  "is_digit_ascii c = in_range 48 57 c"

text \<open>The character class \<open>[a-zA-Z0-9]\<close>.\<close>

definition is_alnum_ascii :: "char \<Rightarrow> bool" where
  "is_alnum_ascii c = (is_lower_ascii c \<or> is_upper_ascii c \<or> is_digit_ascii c)"

text \<open>The character class \<open>[a-z0-9]\<close>.\<close>

definition is_lower_alnum :: "char \<Rightarrow> bool" where
  "is_lower_alnum c = (is_lower_ascii c \<or> is_digit_ascii c)"

text \<open>
  The class \<open>\w\<close>: the underscore and every character that \<open>str.isalnum\<close> accepts. On
  U+0080 to U+00FF these are the letters, the superscript digits and the vulgar fractions.
\<close>

definition is_word_char :: "char \<Rightarrow> bool" where
  "is_word_char c =
     (is_alnum_ascii c \<or> c = CHR ''_'' \<or> code_point c = 170 \<or> in_range 178 179 c
      \<or> code_point c = 181 \<or> in_range 185 186 c \<or> in_range 188 190 c
      \<or> in_range 192 214 c \<or> in_range 216 246 c \<or> in_range 248 255 c)"

text \<open>
  \<open>str.lower\<close>: on this range every character lowers to one character; the capital
  letters are A to Z and U+00C0 to U+00DE without the multiplication sign U+00D7.
\<close>

definition py_lower_char :: "char \<Rightarrow> char" where
  "py_lower_char c =
     (if is_upper_ascii c \<or> (in_range 192 222 c \<and> code_point c \<noteq> 215)
      then char_of (code_point c + 32) else c)"

definition py_lower :: "string \<Rightarrow> string" where
  "py_lower s = map py_lower_char s"

text \<open>\<open>s.strip(chars)\<close> and \<open>s.strip()\<close>: the characters to drop are given as a predicate.\<close>

definition py_strip :: "(char \<Rightarrow> bool) \<Rightarrow> string \<Rightarrow> string" where
  "py_strip P s = rev (dropWhile P (rev (dropWhile P s)))"

definition strip_ws :: "string \<Rightarrow> string" where
  "strip_ws s = py_strip py_isspace s"

text \<open>
  \<open>re.sub(r"[...]+", rep, s)\<close> for a character class: scanning from the left, every
  maximal run of characters of the class is replaced by \<open>rep\<close>.
\<close>

function re_sub_runs :: "(char \<Rightarrow> bool) \<Rightarrow> string \<Rightarrow> string \<Rightarrow> string" where
  "re_sub_runs P rep [] = []"
| "re_sub_runs P rep (c # cs) =
     (if P c then rep @ re_sub_runs P rep (dropWhile P cs) else c # re_sub_runs P rep cs)"
  by pat_completeness auto
termination
  by (relation "measure (\<lambda>(P, rep, s). length s)")
     (auto simp: less_Suc_eq_le length_dropWhile_le)

text \<open>\<open>re.sub(r"[...]", rep, s)\<close> for a character class without repetition.\<close>

definition re_sub_each :: "(char \<Rightarrow> bool) \<Rightarrow> string \<Rightarrow> string \<Rightarrow> string" where
  "re_sub_each P rep s = concat (map (\<lambda>c. if P c then rep else [c]) s)"

definition is_hyphen :: "char \<Rightarrow> bool" where
  "is_hyphen c = (c = CHR ''-'')"

subsection \<open>The two slug functions\<close>

text \<open>\<open>validate_tools.py\<close>: \<open>re.sub(r"[^a-zA-Z0-9]+", "-", title.lower()).strip("-")\<close>.\<close>

definition title_to_slug :: "string \<Rightarrow> string" where
  "title_to_slug title =
     py_strip is_hyphen (re_sub_runs (\<lambda>c. \<not> is_alnum_ascii c) ''-'' (py_lower title))"

text \<open>
  \<open>build-website.py\<close>, inside \<open>get_tool_metadata\<close>:
  \<^verbatim>\<open>
  kebab = re.sub(r"[^\w\s-]", "", title.lower())
  kebab = re.sub(r"[-\s]+", "-", kebab)
  return kebab.strip("-")
  \<close>
\<close>

definition title_to_kebab_case :: "string \<Rightarrow> string" where
  "title_to_kebab_case title =
     (let kebab = re_sub_each (\<lambda>c. \<not> (is_word_char c \<or> py_isspace c \<or> is_hyphen c)) ''''
                    (py_lower title);
          kebab = re_sub_runs (\<lambda>c. is_hyphen c \<or> py_isspace c) ''-'' kebab
      in py_strip is_hyphen kebab)"

text \<open>
  The rule as the specification words it: lowercase, every run of characters outside
  \<open>[a-z0-9]\<close> collapsed to one hyphen, leading and trailing hyphens stripped.
\<close>

definition slug_spec :: "string \<Rightarrow> string" where
  "slug_spec title =
     py_strip is_hyphen (re_sub_runs (\<lambda>c. \<not> is_lower_alnum c) ''-'' (py_lower title))"

section \<open>JSON documents as Python values\<close>

text \<open>
  \<open>json.load\<close> returns \<open>None\<close>, a \<open>bool\<close>, an \<open>int\<close>, a \<open>str\<close>, a \<open>list\<close> or a
  \<open>dict\<close> with string keys, kept in the order of the document. A dictionary is an
  association list in that order; its keys are distinct in every loaded document.
  JSON numbers with a fraction or an exponent (Python's \<open>float\<close>) are not part of the
  model.
\<close>

datatype json =
    JNull
  | JBool bool
  | JInt int
  | JStr string
  | JList "json list"
  | JObj "(string \<times> json) list"

type_synonym dict = "(string \<times> json) list"

datatype exc = TypeError | AttributeError | KeyError

text \<open>Sequencing of two steps of which the first may raise.\<close>

definition and_then :: "exc + 'a \<Rightarrow> ('a \<Rightarrow> exc + 'b) \<Rightarrow> exc + 'b" where
  "and_then m f = (case m of Inl e \<Rightarrow> Inl e | Inr x \<Rightarrow> f x)"

definition keys :: "dict \<Rightarrow> string list" where
  "keys d = map fst d"

text \<open>\<open>k in d\<close>, \<open>d.get(k)\<close> and \<open>d.get(k, default)\<close> on a dictionary.\<close>

definition has_key :: "dict \<Rightarrow> string \<Rightarrow> bool" where
  "has_key d k = (k \<in> set (keys d))"

definition dict_get_default :: "dict \<Rightarrow> string \<Rightarrow> json \<Rightarrow> json" where
  "dict_get_default d k dflt = (case map_of d k of None \<Rightarrow> dflt | Some v \<Rightarrow> v)"

definition dict_get :: "dict \<Rightarrow> string \<Rightarrow> json" where
  "dict_get d k = dict_get_default d k JNull"

text \<open>\<open>v.get(k, default)\<close> on any value: only a dictionary has the method.\<close>

definition attr_get_default :: "json \<Rightarrow> string \<Rightarrow> json \<Rightarrow> exc + json" where
  "attr_get_default v k dflt =
     (case v of JObj d \<Rightarrow> Inr (dict_get_default d k dflt) | _ \<Rightarrow> Inl AttributeError)"

definition attr_get :: "json \<Rightarrow> string \<Rightarrow> exc + json" where
  "attr_get v k = attr_get_default v k JNull"

text \<open>\<open>for x in v\<close>: a list gives its items, a string its characters, a dictionary its keys.\<close>

definition py_iter :: "json \<Rightarrow> exc + json list" where
  "py_iter v =
     (case v of
        JList xs \<Rightarrow> Inr xs
      | JStr s \<Rightarrow> Inr (map (\<lambda>c. JStr [c]) s)
      | JObj d \<Rightarrow> Inr (map JStr (keys d))
      | _ \<Rightarrow> Inl TypeError)"

text \<open>Truth value, \<open>type(v).__name__\<close> and hashability.\<close>

definition py_truthy :: "json \<Rightarrow> bool" where
  "py_truthy v =
     (case v of
        JNull \<Rightarrow> False
      | JBool b \<Rightarrow> b
      | JInt i \<Rightarrow> i \<noteq> 0
      | JStr s \<Rightarrow> s \<noteq> []
      | JList xs \<Rightarrow> xs \<noteq> []
      | JObj d \<Rightarrow> d \<noteq> [])"

definition py_type_name :: "json \<Rightarrow> string" where
  "py_type_name v =
     (case v of
        JNull \<Rightarrow> ''NoneType''
      | JBool b \<Rightarrow> ''bool''
      | JInt i \<Rightarrow> ''int''
      | JStr s \<Rightarrow> ''str''
      | JList xs \<Rightarrow> ''list''
      | JObj d \<Rightarrow> ''dict'')"

definition py_hashable :: "json \<Rightarrow> bool" where
  "py_hashable v = (case v of JList xs \<Rightarrow> False | JObj d \<Rightarrow> False | _ \<Rightarrow> True)"

text \<open>
  As members of a set or keys of a dictionary \<open>True\<close> and \<open>1\<close> are the same element, and
  so are \<open>False\<close> and \<open>0\<close>: \<open>hash_key\<close> gives the representative that is compared.
\<close>

definition hash_key :: "json \<Rightarrow> json" where
  "hash_key v = (case v of JBool b \<Rightarrow> JInt (if b then 1 else 0) | _ \<Rightarrow> v)"

subsection \<open>Rendering: \<open>str\<close> and \<open>repr\<close>\<close>

definition digit_char :: "nat \<Rightarrow> char" where
  "digit_char n = char_of (48 + n)"

function show_nat :: "nat \<Rightarrow> string" where
  "show_nat n = (if n < 10 then [digit_char n] else show_nat (n div 10) @ [digit_char (n mod 10)])"
  by pat_completeness auto
termination
  by (relation "measure id") auto

definition show_int :: "int \<Rightarrow> string" where
  "show_int i = (if i < 0 then ''-'' @ show_nat (nat (- i)) else show_nat (nat i))"

definition hex_digit :: "nat \<Rightarrow> char" where
  "hex_digit n = (if n < 10 then char_of (48 + n) else char_of (87 + n))"

definition squote :: char where
  "squote = CHR 0x27"

definition dquote :: char where
  "dquote = CHR 0x22"

definition backslash :: char where
  "backslash = CHR 0x5C"

definition is_printable :: "char \<Rightarrow> bool" where
  "is_printable c = (\<not> (in_range 0 31 c \<or> in_range 127 160 c \<or> code_point c = 173))"

definition repr_char :: "char \<Rightarrow> char \<Rightarrow> string" where
  "repr_char q c =
     (if c = q \<or> c = backslash then [backslash, c]
      else if code_point c = 9 then [backslash, CHR ''t'']
      else if code_point c = 10 then [backslash, CHR ''n'']
      else if code_point c = 13 then [backslash, CHR ''r'']
      else if is_printable c then [c]
      else [backslash, CHR ''x'', hex_digit (code_point c div 16), hex_digit (code_point c mod 16)])"

text \<open>\<open>repr\<close> of a string: double quotes only when it holds a single quote and no double one.\<close>

definition repr_str :: "string \<Rightarrow> string" where
  "repr_str s =
     (let q = (if squote \<in> set s \<and> dquote \<notin> set s then dquote else squote)
      in [q] @ concat (map (repr_char q) s) @ [q])"

fun py_join :: "string \<Rightarrow> string list \<Rightarrow> string" where
  "py_join sep [] = []"
| "py_join sep [x] = x"
| "py_join sep (x # y # ys) = x @ sep @ py_join sep (y # ys)"

fun py_repr :: "json \<Rightarrow> string" where
  "py_repr JNull = ''None''"
| "py_repr (JBool b) = (if b then ''True'' else ''False'')"
| "py_repr (JInt i) = show_int i"
| "py_repr (JStr s) = repr_str s"
| "py_repr (JList xs) = ''['' @ py_join '', '' (map py_repr xs) @ '']''"
| "py_repr (JObj d) =
     ''{'' @ py_join '', '' (map (\<lambda>kv. repr_str (fst kv) @ '': '' @ py_repr (snd kv)) d) @ ''}''"

text \<open>What an f-string puts for \<open>{v}\<close>.\<close>

definition py_str :: "json \<Rightarrow> string" where
  "py_str v = (case v of JStr s \<Rightarrow> s | _ \<Rightarrow> py_repr v)"

definition quoted :: "string \<Rightarrow> string" where
  "quoted s = [squote] @ s @ [squote]"

subsection \<open>Sets of strings\<close>

text \<open>
  A set of strings is the list of its elements in the order they were added. Python
  iterates such a set in an order that the string hashes fix, and these change with the
  hash seed of the process: the order is a parameter of the model, a function from the list
  of elements to the list as iterated. \<open>sorted\<close> compares code points.
\<close>

type_synonym set_order = "string list \<Rightarrow> string list"

definition enumerates :: "set_order \<Rightarrow> bool" where
  "enumerates h = (\<forall>xs. distinct xs \<longrightarrow> distinct (h xs) \<and> set (h xs) = set xs)"

definition py_sorted :: "string list \<Rightarrow> string list" where
  "py_sorted xs = sort (remdups xs)"

definition set_add :: "string list \<Rightarrow> string \<Rightarrow> string list" where
  "set_add xs x = (if x \<in> set xs then xs else xs @ [x])"

text \<open>\<open>v in S\<close> for a set of strings: the value is hashed first.\<close>

definition set_contains :: "string list \<Rightarrow> json \<Rightarrow> exc + bool" where
  "set_contains xs v =
     (if \<not> py_hashable v then Inl TypeError
      else Inr (case v of JStr s \<Rightarrow> s \<in> set xs | _ \<Rightarrow> False))"

section \<open>The validator (\<open>validate_tools.py\<close>)\<close>

text \<open>The three module-level sets, in the order their literals are written.\<close>

definition VALID_TOOL_TYPES :: "string list" where
  "VALID_TOOL_TYPES = [''skill'', ''command'', ''agent'', ''gem'']"

definition REQUIRED_TOOL_FIELDS :: "string list" where
  "REQUIRED_TOOL_FIELDS = [''name'', ''description'', ''type'', ''category'']"

definition ALLOWED_TOOL_FIELDS :: "string list" where
  "ALLOWED_TOOL_FIELDS = REQUIRED_TOOL_FIELDS"

text \<open>The default of \<open>tool.get("name", f"tool[{index}]")\<close>.\<close>

definition default_name :: "nat \<Rightarrow> json" where
  "default_name index = JStr (''tool['' @ show_nat index @ '']'')"

text \<open>
  The last loop of \<open>validate_tool_structure\<close>, for one field: a value that is present and
  not \<open>None\<close> must be a string with something left after \<open>strip()\<close>.
\<close>

definition check_field :: "dict \<Rightarrow> string \<Rightarrow> string \<Rightarrow> string list" where
  "check_field tool tool_name field =
     (case dict_get tool field of
        JNull \<Rightarrow> []
      | JStr s \<Rightarrow>
          (if strip_ws s = [] then [''Tool '' @ quoted tool_name @ '' has empty '' @ field] else [])
      | v \<Rightarrow> [''Tool '' @ quoted tool_name @ '' field '' @ quoted field
               @ '' must be a string, got '' @ py_type_name v])"

text \<open>
  \<open>validate_tool_structure(tool, index)\<close>. The two loops over a set that is not sorted
  (\<open>missing_fields\<close> and \<open>REQUIRED_TOOL_FIELDS\<close>) run in the order \<open>h\<close>; the membership test
  of \<open>tool_type\<close> raises on a value that cannot be hashed.
\<close>

definition validate_tool_structure :: "set_order \<Rightarrow> dict \<Rightarrow> nat \<Rightarrow> exc + string list" where
  "validate_tool_structure h tool index =
     (let tool_name = py_str (dict_get_default tool ''name'' (default_name index));
          missing_fields = h (filter (\<lambda>f. \<not> has_key tool f) (h REQUIRED_TOOL_FIELDS));
          missing_errors =
            map (\<lambda>field. ''Tool '' @ quoted tool_name @ '' is missing required field: '' @ field)
              missing_fields;
          disallowed_fields = filter (\<lambda>f. f \<notin> set ALLOWED_TOOL_FIELDS) (keys tool);
          disallowed_errors =
            map (\<lambda>field. ''Tool '' @ quoted tool_name @ '' has disallowed field: '' @ field
                   @ ''. Only allowed fields: '' @ py_join '', '' (py_sorted ALLOWED_TOOL_FIELDS))
              (py_sorted disallowed_fields);
          tool_type = dict_get tool ''type''
      in and_then
           (if py_truthy tool_type
            then and_then (set_contains VALID_TOOL_TYPES tool_type) (\<lambda>found. Inr (\<not> found))
            else Inr False)
           (\<lambda>invalid.
              Inr (missing_errors @ disallowed_errors
                   @ (if invalid
                      then [''Tool '' @ quoted tool_name @ '' has invalid type ''
                            @ quoted (py_str tool_type) @ ''. Valid types: ''
                            @ py_join '', '' (py_sorted VALID_TOOL_TYPES)]
                      else [])
                   @ concat (map (check_field tool tool_name) (h REQUIRED_TOOL_FIELDS)))))"

text \<open>
  The first loop of \<open>validate_categories\<close>: the errors for category values that are not
  strings, and the set of referenced categories. A tool that is not a dictionary has no
  \<open>get\<close>.
\<close>

fun referenced_loop ::
  "json list \<Rightarrow> nat \<Rightarrow> string list \<Rightarrow> string list \<Rightarrow> exc + (string list \<times> string list)" where
  "referenced_loop [] i errors referenced = Inr (errors, referenced)"
| "referenced_loop (tool # tools) i errors referenced =
     and_then (attr_get tool ''category'')
       (\<lambda>category.
          if py_truthy category
          then (case category of
                  JStr s \<Rightarrow> referenced_loop tools (Suc i) errors (set_add referenced s)
                | _ \<Rightarrow>
                    and_then (attr_get_default tool ''name'' (default_name i))
                      (\<lambda>tool_name.
                         referenced_loop tools (Suc i)
                           (errors @ [''Tool '' @ quoted (py_str tool_name) @ '' field ''
                                      @ quoted ''category'' @ '' must be a string, got ''
                                      @ py_type_name category])
                           referenced))
          else referenced_loop tools (Suc i) errors referenced)"

definition missing_category_error :: "string \<Rightarrow> string" where
  "missing_category_error category =
     ''Category '' @ quoted category @ '' is referenced by tools but not defined in categories section''"

definition unused_category_error :: "string \<Rightarrow> string" where
  "unused_category_error category =
     ''Category '' @ quoted category @ '' is defined but not used by any tools''"

definition validate_categories :: "json list \<Rightarrow> dict \<Rightarrow> exc + string list" where
  "validate_categories tools categories =
     and_then (referenced_loop tools 0 [] [])
       (\<lambda>(errors, referenced_categories).
          let defined_categories = keys categories;
              missing_categories =
                filter (\<lambda>c. c \<notin> set defined_categories) referenced_categories;
              unused_categories =
                filter (\<lambda>c. c \<notin> set referenced_categories) defined_categories
          in Inr (errors
                  @ map missing_category_error (py_sorted missing_categories)
                  @ map unused_category_error (py_sorted unused_categories)))"

text \<open>\<open>validate_category_structure\<close>: the findings for one item of \<open>categories.items()\<close>.\<close>

definition check_category_field :: "string \<Rightarrow> dict \<Rightarrow> string \<Rightarrow> string list" where
  "check_category_field category_key category_data field =
     (case dict_get category_data field of
        JNull \<Rightarrow> []
      | JStr s \<Rightarrow>
          (if strip_ws s = [] then [''Category '' @ quoted category_key @ '' has empty '' @ field]
           else [])
      | v \<Rightarrow> [''Category '' @ quoted category_key @ '' field '' @ quoted field
               @ '' must be a string, got '' @ py_type_name v])"

definition category_findings :: "string \<times> json \<Rightarrow> string list" where
  "category_findings item =
     (let category_key = fst item
      in case snd item of
           JObj category_data \<Rightarrow>
             (if \<not> has_key category_data ''name''
              then [''Category '' @ quoted category_key @ '' is missing required field: name'']
              else [])
             @ (if \<not> has_key category_data ''description''
                then [''Category '' @ quoted category_key
                      @ '' is missing required field: description'']
                else [])
             @ check_category_field category_key category_data ''name''
             @ check_category_field category_key category_data ''description''
         | v \<Rightarrow> [''Category '' @ quoted category_key @ '' must be an object, got ''
                  @ py_type_name v])"

definition validate_category_structure :: "dict \<Rightarrow> string list" where
  "validate_category_structure categories = concat (map category_findings categories)"

text \<open>
  \<open>validate_tool_names_unique\<close>: \<open>seen\<close> is the set \<open>seen_names\<close>. \<open>name in seen_names\<close>
  hashes the name, which raises on a list or a dictionary.
\<close>

definition duplicate_error :: "json \<Rightarrow> string" where
  "duplicate_error name = ''Duplicate tool name: '' @ quoted (py_str name)"

fun unique_loop :: "json list \<Rightarrow> json list \<Rightarrow> string list \<Rightarrow> exc + string list" where
  "unique_loop [] seen errors = Inr errors"
| "unique_loop (tool # tools) seen errors =
     and_then (attr_get tool ''name'')
       (\<lambda>name.
          if py_truthy name
          then (if \<not> py_hashable name then Inl TypeError
                else if hash_key name \<in> set seen
                then unique_loop tools seen (errors @ [duplicate_error name])
                else unique_loop tools (seen @ [hash_key name]) errors)
          else unique_loop tools seen errors)"

definition validate_tool_names_unique :: "json list \<Rightarrow> exc + string list" where
  "validate_tool_names_unique tools = unique_loop tools [] []"

text \<open>
  The dictionary comprehension of \<open>validate_filesystem_tools_in_json\<close>: a later tool of
  the same name overwrites the type stored for an earlier one, at the position of the
  earlier one.
\<close>

fun dict_store :: "(json \<times> json) list \<Rightarrow> json \<Rightarrow> json \<Rightarrow> (json \<times> json) list" where
  "dict_store [] k v = [(k, v)]"
| "dict_store ((k', v') # kvs) k v =
     (if k' = k then (k, v) # kvs else (k', v') # dict_store kvs k v)"

fun json_tools_loop :: "json list \<Rightarrow> (json \<times> json) list \<Rightarrow> exc + (json \<times> json) list" where
  "json_tools_loop [] json_tools = Inr json_tools"
| "json_tools_loop (tool # tools) json_tools =
     and_then (attr_get tool ''name'')
       (\<lambda>name.
          and_then (attr_get tool ''type'')
            (\<lambda>type.
               if \<not> py_hashable name then Inl TypeError
               else json_tools_loop tools (dict_store json_tools (hash_key name) type)))"

text \<open>
  The filesystem view is the dictionary that \<open>get_filesystem_tools(helpers_dir)\<close> returns,
  from tool name to tool type, in the order of its items. The scan of the directory is not
  modelled: the view is an argument.
\<close>

type_synonym filesystem_tools = "(string \<times> string) list"

definition missing_from_json_error :: "string \<Rightarrow> string \<Rightarrow> string" where
  "missing_from_json_error tool_name expected_type =
     ''Tool '' @ quoted tool_name @ '' (type: '' @ expected_type
     @ '') found in filesystem but missing from tools.json''"

definition mismatched_type_error :: "string \<Rightarrow> string \<Rightarrow> json \<Rightarrow> string" where
  "mismatched_type_error tool_name expected_type json_type =
     ''Tool '' @ quoted tool_name @ '' has mismatched type: filesystem='' @ expected_type
     @ '', tools.json='' @ py_str json_type"

definition filesystem_finding :: "(json \<times> json) list \<Rightarrow> string \<times> string \<Rightarrow> string list" where
  "filesystem_finding json_tools item =
     (let tool_name = fst item; expected_type = snd item
      in case map_of json_tools (JStr tool_name) of
           None \<Rightarrow> [missing_from_json_error tool_name expected_type]
         | Some json_type \<Rightarrow>
             (if json_type \<noteq> JStr expected_type
              then [mismatched_type_error tool_name expected_type json_type]
              else []))"

definition validate_filesystem_tools_in_json ::
  "dict \<Rightarrow> filesystem_tools \<Rightarrow> exc + string list" where
  "validate_filesystem_tools_in_json tools_data filesystem_tools =
     and_then (py_iter (dict_get_default tools_data ''tools'' (JList [])))
       (\<lambda>tools.
          and_then (json_tools_loop tools [])
            (\<lambda>json_tools. Inr (concat (map (filesystem_finding json_tools) filesystem_tools))))"

text \<open>The loop of \<open>validate_tools_json\<close> over \<open>enumerate(tools)\<close>.\<close>

fun tools_loop :: "set_order \<Rightarrow> json list \<Rightarrow> nat \<Rightarrow> exc + string list" where
  "tools_loop h [] i = Inr []"
| "tools_loop h (tool # tools) i =
     and_then
       (case tool of
          JObj t \<Rightarrow> validate_tool_structure h t i
        | v \<Rightarrow> Inr [''Tool at index '' @ show_nat i @ '' must be an object, got ''
                    @ py_type_name v])
       (\<lambda>errors. and_then (tools_loop h tools (Suc i)) (\<lambda>rest. Inr (errors @ rest)))"

text \<open>
  \<open>validate_tools_json(tools_data, helpers_dir)\<close>. The last argument is \<open>None\<close> when
  \<open>helpers_dir\<close> is \<open>None\<close> or does not exist, and the filesystem view of the directory
  otherwise.
\<close>

definition validate_tools_json ::
  "set_order \<Rightarrow> dict \<Rightarrow> filesystem_tools option \<Rightarrow> exc + string list" where
  "validate_tools_json h tools_data helpers =
     (if \<not> has_key tools_data ''tools'' then Inr [''Missing required 'tools' field'']
      else if \<not> has_key tools_data ''categories''
      then Inr [''Missing required 'categories' field'']
      else
        (case dict_get_default tools_data ''tools'' (JList []) of
           JList tools \<Rightarrow>
             (case dict_get_default tools_data ''categories'' (JObj []) of
                JObj categories \<Rightarrow>
                  and_then (tools_loop h tools 0)
                    (\<lambda>tool_errors.
                       and_then (validate_tool_names_unique tools)
                         (\<lambda>unique_errors.
                            and_then (validate_categories tools categories)
                              (\<lambda>category_errors.
                                 and_then
                                   (case helpers of
                                      None \<Rightarrow> Inr []
                                    | Some filesystem_tools \<Rightarrow>
                                        validate_filesystem_tools_in_json tools_data
                                          filesystem_tools)
                                   (\<lambda>filesystem_errors.
                                      Inr (tool_errors @ unique_errors
                                           @ validate_category_structure categories
                                           @ category_errors @ filesystem_errors)))))
              | _ \<Rightarrow> Inr [quoted ''categories'' @ '' field must be an object''])
         | _ \<Rightarrow> Inr [quoted ''tools'' @ '' field must be an array'']))"

section \<open>The website data builder (\<open>build-website.py\<close>)\<close>

text \<open>
  \<open>build_website_data\<close> reads \<open>tools.json\<close> and then, for each tool it keeps, calls
  \<open>get_tool_metadata\<close>, which reads the asset files of the tool. The loaded document and
  that function are the arguments of the model; what the builder prints is left out.
\<close>

record tool_lists =
  gemini :: "json list"
  skills :: "json list"
  commands :: "json list"
  agents :: "json list"

definition required_keys :: "string list" where
  "required_keys = [''name'', ''type'', ''description'', ''category'']"

text \<open>One round of the loop \<open>for tool in tools_config["tools"]\<close>.\<close>

definition add_tool :: "(dict \<Rightarrow> exc + json) \<Rightarrow> json \<Rightarrow> tool_lists \<Rightarrow> exc + tool_lists" where
  "add_tool get_tool_metadata tool website_tools =
     (case tool of
        JObj t \<Rightarrow>
          (let missing_keys = filter (\<lambda>key. \<not> has_key t key) required_keys
           in if missing_keys \<noteq> [] then Inr website_tools
              else and_then (get_tool_metadata t)
                     (\<lambda>tool_metadata.
                        let tool_type = dict_get t ''type''
                        in if tool_type = JStr ''skill''
                           then Inr (website_tools\<lparr>skills := skills website_tools @ [tool_metadata]\<rparr>)
                           else if tool_type = JStr ''command''
                           then Inr (website_tools\<lparr>commands := commands website_tools @ [tool_metadata]\<rparr>)
                           else if tool_type = JStr ''agent''
                           then Inr (website_tools\<lparr>agents := agents website_tools @ [tool_metadata]\<rparr>)
                           else if tool_type = JStr ''gem''
                           then Inr (website_tools\<lparr>gemini := gemini website_tools @ [tool_metadata]\<rparr>)
                           else Inr website_tools))
      | _ \<Rightarrow> Inr website_tools)"

fun add_tools :: "(dict \<Rightarrow> exc + json) \<Rightarrow> json list \<Rightarrow> tool_lists \<Rightarrow> exc + tool_lists" where
  "add_tools get_tool_metadata [] website_tools = Inr website_tools"
| "add_tools get_tool_metadata (tool # tools) website_tools =
     and_then (add_tool get_tool_metadata tool website_tools) (add_tools get_tool_metadata tools)"

text \<open>\<open>d[k]\<close> on a dictionary.\<close>

definition dict_item :: "dict \<Rightarrow> string \<Rightarrow> exc + json" where
  "dict_item d k = (case map_of d k of None \<Rightarrow> Inl KeyError | Some v \<Rightarrow> Inr v)"

definition build_website_data :: "(dict \<Rightarrow> exc + json) \<Rightarrow> dict \<Rightarrow> exc + json" where
  "build_website_data get_tool_metadata tools_config =
     and_then (dict_item tools_config ''categories'')
       (\<lambda>categories.
          and_then (dict_item tools_config ''tools'')
            (\<lambda>tools_value.
               and_then (py_iter tools_value)
                 (\<lambda>tools.
                    and_then
                      (add_tools get_tool_metadata tools
                         \<lparr>gemini = [], skills = [], commands = [], agents = []\<rparr>)
                      (\<lambda>website_tools.
                         Inr (JObj
                           [(''name'', JStr ''odh-ai-helpers''),
                            (''owner'', JStr ''ODH''),
                            (''categories'', JObj [(''categories'', categories)]),
                            (''tools'', JObj
                               [(''gemini'', JList (gemini website_tools)),
                                (''skills'', JList (skills website_tools)),
                                (''commands'', JList (commands website_tools)),
                                (''agents'', JList (agents website_tools))])])))))"

text \<open>For concrete runs: a metadata reader that returns the fields of the tool as they are.\<close>

definition fields_only :: "dict \<Rightarrow> exc + json" where
  "fields_only tool = Inr (JObj tool)"

section \<open>The marketplace builder (\<open>update_claude_settings.py\<close>)\<close>








section \<open>Notions used in the statements and proofs\<close>

text \<open>The shape of a slug: only lowercase letters, digits and hyphens, and no two hyphens in a row.\<close>

definition double_hyphen :: "string \<Rightarrow> bool" where
  "double_hyphen s = (\<exists>xs ys. s = xs @ ''--'' @ ys)"

definition slug_chars :: "string \<Rightarrow> bool" where
  "slug_chars s = (\<forall>c \<in> set s. is_lower_alnum c \<or> is_hyphen c)"

definition nonblank :: "json \<Rightarrow> bool" where
  "nonblank v = (case v of JStr s \<Rightarrow> list_ex (\<lambda>c. \<not> py_isspace c) s | _ \<Rightarrow> False)"

definition valid_tool :: "dict \<Rightarrow> bool" where
  "valid_tool t =
     (set (keys t) = {''name'', ''type'', ''description'', ''category''}
      \<and> nonblank (dict_get t ''name'') \<and> nonblank (dict_get t ''type'')
      \<and> nonblank (dict_get t ''description'') \<and> nonblank (dict_get t ''category'')
      \<and> dict_get t ''type'' \<in> {JStr ''skill'', JStr ''command'', JStr ''agent'', JStr ''gem''})"

text \<open>
  What the loops compute on tools that are dictionaries: the categories referenced, the
  errors for category values that are not strings, and the dictionary \<open>json_tools\<close>.
\<close>

definition category_refs :: "dict list \<Rightarrow> string list" where
  "category_refs tools =
     concat (map (\<lambda>t. case dict_get t ''category'' of
                          JStr s \<Rightarrow> (if s \<noteq> [] then [s] else [])
                        | _ \<Rightarrow> []) tools)"

fun category_type_errors :: "dict list \<Rightarrow> nat \<Rightarrow> string list" where
  "category_type_errors [] i = []"
| "category_type_errors (t # ts) i =
     (case dict_get t ''category'' of
        JStr s \<Rightarrow> []
      | v \<Rightarrow> (if py_truthy v
              then [''Tool '' @ quoted (py_str (dict_get_default t ''name'' (default_name i)))
                    @ '' field '' @ quoted ''category'' @ '' must be a string, got ''
                    @ py_type_name v]
              else []))
     @ category_type_errors ts (Suc i)"

definition json_tools_of :: "dict list \<Rightarrow> (json \<times> json) list \<Rightarrow> (json \<times> json) list" where
  "json_tools_of tools json_tools =
     foldl (\<lambda>jt t. dict_store jt (hash_key (dict_get t ''name'')) (dict_get t ''type''))
       json_tools tools"

definition named :: "string \<Rightarrow> dict \<Rightarrow> bool" where
  "named n t = (dict_get t ''name'' = JStr n)"

text \<open>A valid catalog, in the words of the specification.\<close>

definition valid_category :: "json \<Rightarrow> bool" where
  "valid_category v =
     (case v of
        JObj c \<Rightarrow> nonblank (dict_get c ''name'') \<and> nonblank (dict_get c ''description'')
      | _ \<Rightarrow> False)"

definition valid_catalog :: "dict list \<Rightarrow> dict \<Rightarrow> bool" where
  "valid_catalog tools categories =
     (list_all valid_tool tools
      \<and> distinct (map (\<lambda>t. dict_get t ''name'') tools)
      \<and> distinct (keys categories)
      \<and> list_all (\<lambda>t. list_ex (\<lambda>item. dict_get t ''category'' = JStr (fst item)
                                    \<and> valid_category (snd item)) categories) tools
      \<and> list_all (\<lambda>item. list_ex (\<lambda>t. dict_get t ''category'' = JStr (fst item)) tools)
           categories)"

definition filesystem_agrees :: "dict list \<Rightarrow> filesystem_tools \<Rightarrow> bool" where
  "filesystem_agrees tools fs =
     list_all (\<lambda>item. list_ex (\<lambda>t. dict_get t ''name'' = JStr (fst item)
                                   \<and> dict_get t ''type'' = JStr (snd item)) tools) fs"

text \<open>A category is referenced when some tool has it, a non-empty string, as its category.\<close>

definition referenced :: "dict list \<Rightarrow> string \<Rightarrow> bool" where
  "referenced tools c = (c \<noteq> [] \<and> list_ex (\<lambda>t. dict_get t ''category'' = JStr c) tools)"

text \<open>
  Filesystem agreement for one item of the view, in the words of the specification, with
  the catalog entry of a name taken to be the last tool of that name.
\<close>

definition agreement :: "dict list \<Rightarrow> string \<times> string \<Rightarrow> string list" where
  "agreement tools item =
     (let tool_name = fst item; expected_type = snd item;
          same_named = filter (named tool_name) tools
      in if same_named = [] then [missing_from_json_error tool_name expected_type]
         else if dict_get (last same_named) ''type'' = JStr expected_type then []
         else [mismatched_type_error tool_name expected_type
                 (dict_get (last same_named) ''type'')])"

text \<open>The duplicate errors of the uniqueness loop, for tools that are dictionaries.\<close>

fun duplicate_errors :: "dict list \<Rightarrow> json list \<Rightarrow> string list" where
  "duplicate_errors [] seen = []"
| "duplicate_errors (t # ts) seen =
     (if py_truthy (dict_get t ''name'')
      then (if hash_key (dict_get t ''name'') \<in> set seen
            then duplicate_error (dict_get t ''name'') # duplicate_errors ts seen
            else duplicate_errors ts (seen @ [hash_key (dict_get t ''name'')]))
      else duplicate_errors ts seen)"

definition string_or_falsy :: "json \<Rightarrow> bool" where
  "string_or_falsy v = (case v of JStr s \<Rightarrow> True | _ \<Rightarrow> \<not> py_truthy v)"



section \<open>The slug rule\<close>

lemma code_point_char_of: "n < 256 \<Longrightarrow> code_point (char_of n) = n"
  by (simp add: code_point_def)

lemma code_point_lower:
  "code_point (py_lower_char c) =
     (if is_upper_ascii c \<or> (in_range 192 222 c \<and> code_point c \<noteq> 215)
      then code_point c + 32 else code_point c)"
  by (auto simp: py_lower_char_def is_upper_ascii_def in_range_def code_point_char_of)

lemma lower_not_upper: "\<not> is_upper_ascii (py_lower_char c)"
  unfolding is_upper_ascii_def in_range_def code_point_lower
  by (auto simp: is_upper_ascii_def in_range_def)

lemma lower_alnum_iff: "is_alnum_ascii (py_lower_char c) = is_lower_alnum (py_lower_char c)"
  by (simp add: is_alnum_ascii_def is_lower_alnum_def lower_not_upper)

lemma lower_fixed: "is_lower_alnum c \<or> is_hyphen c \<Longrightarrow> py_lower_char c = c"
  by (auto simp: py_lower_char_def is_lower_alnum_def is_lower_ascii_def is_digit_ascii_def
      is_upper_ascii_def in_range_def is_hyphen_def code_point_def)

lemma hyphen_not_alnum: "is_hyphen c \<Longrightarrow> \<not> is_alnum_ascii c"
  by (auto simp: is_alnum_ascii_def is_lower_ascii_def is_digit_ascii_def
      is_upper_ascii_def in_range_def is_hyphen_def code_point_def)

lemma re_sub_runs_cong:
  "(\<And>c. c \<in> set s \<Longrightarrow> P c = Q c) \<Longrightarrow> re_sub_runs P rep s = re_sub_runs Q rep s"
proof (induction P rep s rule: re_sub_runs.induct)
  case (1 P rep)
  show ?case by simp
next
  case (2 P rep c cs)
  have dw: "dropWhile P cs = dropWhile Q cs"
    by (rule dropWhile_cong) (auto simp: 2(3))
  have pc: "P c = Q c" by (simp add: 2(3))
  show ?case
  proof (cases "P c")
    case True
    have "re_sub_runs P rep (dropWhile P cs) = re_sub_runs Q rep (dropWhile P cs)"
      using True 2(3) by (intro 2(1)) (auto dest: set_dropWhileD)
    thus ?thesis using True pc dw by simp
  next
    case False
    have "re_sub_runs P rep cs = re_sub_runs Q rep cs"
      using False 2(3) by (intro 2(2)) auto
    thus ?thesis using False pc by simp
  qed
qed

lemma slug_refines_spec: "title_to_slug t = slug_spec t"
  unfolding title_to_slug_def slug_spec_def
  by (rule arg_cong [where f = "py_strip is_hyphen"], rule re_sub_runs_cong)
     (auto simp: py_lower_def lower_alnum_iff)

lemma double_hyphen_Cons:
  "double_hyphen (c # s) = ((is_hyphen c \<and> s \<noteq> [] \<and> is_hyphen (hd s)) \<or> double_hyphen s)"
proof
  assume "double_hyphen (c # s)"
  then obtain xs ys where e: "c # s = xs @ ''--'' @ ys" by (auto simp: double_hyphen_def)
  show "(is_hyphen c \<and> s \<noteq> [] \<and> is_hyphen (hd s)) \<or> double_hyphen s"
  proof (cases xs)
    case Nil
    with e show ?thesis by (auto simp: is_hyphen_def)
  next
    case (Cons x xs')
    with e have "s = xs' @ ''--'' @ ys" by simp
    thus ?thesis unfolding double_hyphen_def by blast
  qed
next
  assume a: "(is_hyphen c \<and> s \<noteq> [] \<and> is_hyphen (hd s)) \<or> double_hyphen s"
  show "double_hyphen (c # s)"
  proof (cases "double_hyphen s")
    case True
    then obtain xs ys where "s = xs @ ''--'' @ ys" by (auto simp: double_hyphen_def)
    hence "c # s = (c # xs) @ ''--'' @ ys" by simp
    thus ?thesis unfolding double_hyphen_def by blast
  next
    case False
    with a obtain d ds where "s = d # ds" "is_hyphen c" "is_hyphen d" by (cases s) auto
    hence "c # s = [] @ ''--'' @ ds" by (simp add: is_hyphen_def)
    thus ?thesis unfolding double_hyphen_def by blast
  qed
qed

lemma double_hyphen_Nil [simp]: "\<not> double_hyphen []"
  by (simp add: double_hyphen_def)

lemma double_hyphen_infix: "double_hyphen s \<Longrightarrow> double_hyphen (pre @ s @ post)"
proof -
  assume "double_hyphen s"
  then obtain xs ys where "s = xs @ ''--'' @ ys" by (auto simp: double_hyphen_def)
  hence "pre @ s @ post = (pre @ xs) @ ''--'' @ (ys @ post)" by simp
  thus ?thesis unfolding double_hyphen_def by blast
qed

text \<open>What \<open>strip\<close> returns is a piece of its argument, with clean ends.\<close>

lemma rev_dropWhile_split: "y = rev (dropWhile P (rev y)) @ rev (takeWhile P (rev y))"
proof -
  have "rev (dropWhile P (rev y)) @ rev (takeWhile P (rev y))
        = rev (takeWhile P (rev y) @ dropWhile P (rev y))"
    by (simp only: rev_append)
  also have "\<dots> = rev (rev y)" by (simp only: takeWhile_dropWhile_id)
  finally show ?thesis by simp
qed

lemma py_strip_suffix: "dropWhile P s = py_strip P s @ rev (takeWhile P (rev (dropWhile P s)))"
  unfolding py_strip_def by (rule rev_dropWhile_split)

lemma py_strip_infix: "\<exists>pre post. s = pre @ py_strip P s @ post"
proof -
  have "s = takeWhile P s @ dropWhile P s" by simp
  hence "s = takeWhile P s @ py_strip P s @ rev (takeWhile P (rev (dropWhile P s)))"
    using py_strip_suffix [of P s] by simp
  thus ?thesis by blast
qed

lemma py_strip_subset: "set (py_strip P s) \<subseteq> set s"
proof
  fix x
  assume "x \<in> set (py_strip P s)"
  hence "x \<in> set (dropWhile P (rev (dropWhile P s)))" by (simp add: py_strip_def)
  hence "x \<in> set (rev (dropWhile P s))" by (rule set_dropWhileD)
  hence "x \<in> set (dropWhile P s)" by simp
  thus "x \<in> set s" by (rule set_dropWhileD)
qed

lemma py_strip_last: "py_strip P s \<noteq> [] \<Longrightarrow> \<not> P (last (py_strip P s))"
  by (simp add: py_strip_def last_rev hd_dropWhile)

lemma py_strip_hd: "py_strip P s \<noteq> [] \<Longrightarrow> \<not> P (hd (py_strip P s))"
proof -
  assume ne: "py_strip P s \<noteq> []"
  let ?y = "dropWhile P s"
  note y = py_strip_suffix [of P s]
  have "?y \<noteq> []"
  proof
    assume "?y = []"
    with y have "[] = py_strip P s @ rev (takeWhile P (rev ?y))" by (simp only:)
    with ne show False by simp
  qed
  hence "\<not> P (hd ?y)" by (rule hd_dropWhile)
  moreover have "hd ?y = hd (py_strip P s)" using ne by (subst y) simp
  ultimately show ?thesis by simp
qed

lemma py_strip_clean: "s = [] \<or> (\<not> P (hd s) \<and> \<not> P (last s)) \<Longrightarrow> py_strip P s = s"
proof (cases s)
  case Nil
  thus ?thesis by (simp add: py_strip_def)
next
  case (Cons c cs)
  assume "s = [] \<or> (\<not> P (hd s) \<and> \<not> P (last s))"
  with Cons have h: "\<not> P (hd s)" and l: "\<not> P (last s)" and ne: "s \<noteq> []" by auto
  have "dropWhile P s = s" using h Cons by simp
  moreover have "dropWhile P (rev s) = rev s" using l ne by (cases "rev s") (auto simp: last_rev hd_rev dest: arg_cong [where f = hd])
  ultimately show ?thesis by (simp add: py_strip_def)
qed

lemma re_sub_runs_hd:
  "s \<noteq> [] \<Longrightarrow> \<not> P (hd s) \<Longrightarrow> re_sub_runs P rep s \<noteq> [] \<and> hd (re_sub_runs P rep s) = hd s"
  by (cases s) auto

lemma re_sub_runs_chars:
  "set (re_sub_runs P rep s) \<subseteq> set rep \<union> {c \<in> set s. \<not> P c}"
proof (induction P rep s rule: re_sub_runs.induct)
  case (1 P rep)
  show ?case by simp
next
  case (2 P rep c cs)
  show ?case
  proof (cases "P c")
    case True
    with 2(1) have "set (re_sub_runs P rep (dropWhile P cs)) \<subseteq> set rep \<union> {c \<in> set (dropWhile P cs). \<not> P c}"
      by simp
    with True show ?thesis by (auto dest: set_dropWhileD)
  next
    case False
    with 2(2) show ?thesis by auto
  qed
qed

lemma re_sub_runs_no_double:
  "(\<And>c. is_hyphen c \<Longrightarrow> P c) \<Longrightarrow> \<not> double_hyphen (re_sub_runs P ''-'' s)"
proof (induction P "''-''" s rule: re_sub_runs.induct)
  case (1 P)
  show ?case by simp
next
  case (2 P c cs)
  show ?case
  proof (cases "P c")
    case True
    let ?d = "dropWhile P cs"
    have ih: "\<not> double_hyphen (re_sub_runs P ''-'' ?d)" using 2(1) [OF True] 2(3) by simp
    have "re_sub_runs P ''-'' ?d = [] \<or> \<not> is_hyphen (hd (re_sub_runs P ''-'' ?d))"
    proof (cases "?d = []")
      case True
      show ?thesis unfolding True by simp
    next
      case False
      hence "\<not> P (hd ?d)" by (rule hd_dropWhile)
      with False re_sub_runs_hd [of ?d P "''-''"] 2(3) show ?thesis by auto
    qed
    with ih True show ?thesis by (auto simp: double_hyphen_Cons)
  next
    case False
    hence nh: "\<not> is_hyphen c" using 2(3) by blast
    have "\<not> double_hyphen (re_sub_runs P ''-'' cs)" using 2(2) [OF False] 2(3) by simp
    with False nh show ?thesis by (simp add: double_hyphen_Cons)
  qed
qed

lemma re_sub_runs_fixed:
  "slug_chars s \<Longrightarrow> \<not> double_hyphen s \<Longrightarrow> re_sub_runs (\<lambda>c. \<not> is_alnum_ascii c) ''-'' s = s"
proof (induction s)
  case Nil
  show ?case by simp
next
  case (Cons c cs)
  from Cons.prems have sc: "slug_chars cs" and nd: "\<not> double_hyphen cs"
    by (auto simp: slug_chars_def double_hyphen_Cons)
  hence ih: "re_sub_runs (\<lambda>c. \<not> is_alnum_ascii c) ''-'' cs = cs" by (rule Cons.IH)
  show ?case
  proof (cases "is_alnum_ascii c")
    case True
    with ih show ?thesis by simp
  next
    case False
    with Cons.prems have hc: "is_hyphen c"
      by (auto simp: slug_chars_def is_alnum_ascii_def is_lower_alnum_def)
    have "dropWhile (\<lambda>c. \<not> is_alnum_ascii c) cs = cs"
    proof (cases cs)
      case Nil
      thus ?thesis by simp
    next
      case (Cons d ds)
      with hc Cons.prems(2) have "\<not> is_hyphen d" by (auto simp: double_hyphen_Cons)
      with sc Cons have "is_alnum_ascii d"
        by (auto simp: slug_chars_def is_alnum_ascii_def is_lower_alnum_def)
      with Cons show ?thesis by simp
    qed
    with False ih hc show ?thesis by (simp add: is_hyphen_def)
  qed
qed

lemma slug_shape:
  "slug_chars (title_to_slug t)" (is ?A)
  "\<not> double_hyphen (title_to_slug t)" (is ?B)
  "title_to_slug t = [] \<or> (\<not> is_hyphen (hd (title_to_slug t)) \<and> \<not> is_hyphen (last (title_to_slug t)))" (is ?C)
proof -
  let ?P = "\<lambda>c. \<not> is_alnum_ascii c"
  let ?x = "re_sub_runs ?P ''-'' (py_lower t)"
  have "set ?x \<subseteq> set ''-'' \<union> {c \<in> set (py_lower t). \<not> ?P c}" by (rule re_sub_runs_chars)
  hence "slug_chars ?x"
    by (auto simp: slug_chars_def py_lower_def is_hyphen_def lower_alnum_iff)
  with py_strip_subset [of is_hyphen ?x] show ?A
    by (auto simp: slug_chars_def title_to_slug_def)
  have nd: "\<not> double_hyphen ?x" by (rule re_sub_runs_no_double) (simp add: hyphen_not_alnum)
  obtain pre post where "?x = pre @ title_to_slug t @ post"
    using py_strip_infix [of ?x is_hyphen] by (auto simp: title_to_slug_def)
  with nd double_hyphen_infix [of "title_to_slug t" pre post] show ?B by auto
  show ?C using py_strip_hd [of is_hyphen ?x] py_strip_last [of is_hyphen ?x]
    by (auto simp: title_to_slug_def)
qed

lemma slug_fixed:
  assumes "slug_chars s" "\<not> double_hyphen s"
    "s = [] \<or> (\<not> is_hyphen (hd s) \<and> \<not> is_hyphen (last s))"
  shows "title_to_slug s = s"
proof -
  have "py_lower s = s" using assms(1)
    by (auto simp: py_lower_def slug_chars_def intro!: map_idI lower_fixed)
  moreover have "re_sub_runs (\<lambda>c. \<not> is_alnum_ascii c) ''-'' s = s"
    using assms(1,2) by (rule re_sub_runs_fixed)
  moreover have "py_strip is_hyphen s = s" using assms(3) by (rule py_strip_clean)
  ultimately show ?thesis by (simp add: title_to_slug_def)
qed

lemma slug_idem: "title_to_slug (title_to_slug t) = title_to_slug t"
  by (rule slug_fixed) (rule slug_shape)+

text \<open>
  C8. The slug of a slug is the slug itself; the two documented examples give
  \<open>my-cool-gem\<close> and \<open>multi-space\<close>; and \<open>title_to_slug\<close> computes what the rule says:
  the title in lowercase, each maximal run of characters outside \<open>[a-z0-9]\<close> replaced by
  one hyphen, hyphens stripped at both ends.
\<close>

theorem C8_slug_idempotent_examples_rule:
  "title_to_slug (title_to_slug t) = title_to_slug t
   \<and> title_to_slug ''My Cool Gem!'' = ''my-cool-gem''
   \<and> title_to_slug ''  multi   space '' = ''multi-space''
   \<and> title_to_slug t = slug_spec t"
proof -
  have "title_to_slug ''My Cool Gem!'' = ''my-cool-gem''" by code_simp
  moreover have "title_to_slug ''  multi   space '' = ''multi-space''" by code_simp
  ultimately show ?thesis using slug_idem slug_refines_spec by simp
qed

text \<open>
  C10. The validator's \<open>title_to_slug\<close> and the website builder's
  \<open>title_to_kebab_case\<close> should agree on every title. They do not: a character that is
  neither a letter, a digit, an underscore, a space nor a hyphen becomes a hyphen in the
  first and disappears in the second, and an underscore becomes a hyphen in the first and
  stays in the second.
\<close>

theorem C10_slug_and_kebab_differ:
  "title_to_slug ''a!b'' = ''a-b'' \<and> title_to_kebab_case ''a!b'' = ''ab''
   \<and> title_to_slug ''a_b'' = ''a-b'' \<and> title_to_kebab_case ''a_b'' = ''a_b''"
  by code_simp

section \<open>Valid catalogs\<close>

lemma and_then_simps [simp]:
  "and_then (Inl e) f = Inl e"
  "and_then (Inr x) f = f x"
  by (simp_all add: and_then_def)

lemma strip_ws_empty_iff: "strip_ws s = [] \<longleftrightarrow> (\<forall>c \<in> set s. py_isspace c)"
proof
  assume "strip_ws s = []"
  hence "dropWhile py_isspace (rev (dropWhile py_isspace s)) = []"
    by (simp add: strip_ws_def py_strip_def)
  hence "\<forall>c \<in> set (rev (dropWhile py_isspace s)). py_isspace c"
    by (simp only: dropWhile_eq_Nil_conv)
  hence "\<forall>c \<in> set (dropWhile py_isspace s). py_isspace c" by simp
  moreover have "dropWhile py_isspace s \<noteq> [] \<Longrightarrow> \<not> py_isspace (hd (dropWhile py_isspace s))"
    by (rule hd_dropWhile)
  ultimately have "dropWhile py_isspace s = []" by (cases "dropWhile py_isspace s") auto
  thus "\<forall>c \<in> set s. py_isspace c" by (simp only: dropWhile_eq_Nil_conv)
next
  assume "\<forall>c \<in> set s. py_isspace c"
  hence dw: "dropWhile py_isspace s = []" by simp
  show "strip_ws s = []" unfolding strip_ws_def py_strip_def dw by simp
qed

lemma nonblank_cases:
  assumes "nonblank v"
  obtains s where "v = JStr s" "strip_ws s \<noteq> []" "s \<noteq> []"
proof -
  from assms obtain s where v: "v = JStr s" and ex: "list_ex (\<lambda>c. \<not> py_isspace c) s"
    by (cases v) (auto simp: nonblank_def)
  from ex have "strip_ws s \<noteq> []" by (auto simp: strip_ws_empty_iff list_ex_iff)
  moreover from ex have "s \<noteq> []" by auto
  ultimately show thesis using v that by blast
qed

lemma check_field_nonblank: "nonblank (dict_get tool field) \<Longrightarrow> check_field tool name field = []"
  by (erule nonblank_cases) (simp add: check_field_def)

lemma enumerates_set: "enumerates h \<Longrightarrow> distinct xs \<Longrightarrow> set (h xs) = set xs"
  by (simp add: enumerates_def)

lemma enumerates_Nil: "enumerates h \<Longrightarrow> h [] = []"
  using enumerates_set [of h "[]"] by simp

lemma set_required: "set REQUIRED_TOOL_FIELDS = {''name'', ''type'', ''description'', ''category''}"
  by (auto simp: REQUIRED_TOOL_FIELDS_def)

lemma distinct_required: "distinct REQUIRED_TOOL_FIELDS"
  by (simp add: REQUIRED_TOOL_FIELDS_def)

lemma valid_tool_structure:
  assumes h: "enumerates h" and v: "valid_tool t"
  shows "validate_tool_structure h t i = Inr []"
proof -
  from v have ks: "set (keys t) = set REQUIRED_TOOL_FIELDS"
    by (simp add: valid_tool_def set_required)
  have hr: "set (h REQUIRED_TOOL_FIELDS) = set REQUIRED_TOOL_FIELDS"
    using h distinct_required by (rule enumerates_set)
  have "filter (\<lambda>f. \<not> has_key t f) (h REQUIRED_TOOL_FIELDS) = []"
    by (simp add: filter_empty_conv has_key_def ks hr)
  hence missing: "h (filter (\<lambda>f. \<not> has_key t f) (h REQUIRED_TOOL_FIELDS)) = []"
    using h by (simp add: enumerates_Nil)
  have disallowed: "filter (\<lambda>f. f \<notin> set ALLOWED_TOOL_FIELDS) (keys t) = []"
    by (simp add: filter_empty_conv ALLOWED_TOOL_FIELDS_def ks)
  from v have ty: "dict_get t ''type'' \<in> {JStr ''skill'', JStr ''command'', JStr ''agent'', JStr ''gem''}"
    by (simp add: valid_tool_def)
  hence type_ok: "py_truthy (dict_get t ''type'')"
    "set_contains VALID_TOOL_TYPES (dict_get t ''type'') = Inr True"
    by (auto simp: py_truthy_def set_contains_def py_hashable_def VALID_TOOL_TYPES_def)
  have "\<And>f. f \<in> set (h REQUIRED_TOOL_FIELDS) \<Longrightarrow> nonblank (dict_get t f)"
    using v unfolding hr set_required valid_tool_def by auto
  hence fields: "concat (map (check_field t nm) (h REQUIRED_TOOL_FIELDS)) = []" for nm
    by (simp add: check_field_nonblank)
  show ?thesis
    unfolding validate_tool_structure_def Let_def missing disallowed
    by (simp add: type_ok fields py_sorted_def)
qed

lemma valid_tools_loop:
  "enumerates h \<Longrightarrow> list_all valid_tool tools \<Longrightarrow> tools_loop h (map JObj tools) i = Inr []"
  by (induction tools arbitrary: i) (simp_all add: valid_tool_structure)

lemma identity_enumerates: "enumerates (\<lambda>xs. xs)"
  by (simp add: enumerates_def)

lemma sort_enumerates: "enumerates sort"
  by (simp add: enumerates_def)

lemma attr_get_obj [simp]:
  "attr_get (JObj d) k = Inr (dict_get d k)"
  "attr_get_default (JObj d) k dflt = Inr (dict_get_default d k dflt)"
  by (simp_all add: attr_get_def attr_get_default_def dict_get_def)

lemma hash_key_str [simp]: "hash_key (JStr s) = JStr s"
  by (simp add: hash_key_def)

lemma hash_key_eq_str: "hash_key v = JStr s \<longleftrightarrow> v = JStr s"
  by (cases v) (auto simp: hash_key_def)

subsection \<open>Unique names\<close>

lemma unique_loop_distinct:
  "list_all (\<lambda>t. nonblank (dict_get t ''name'')) tools
   \<Longrightarrow> distinct (map (\<lambda>t. dict_get t ''name'') tools)
   \<Longrightarrow> (\<And>t. t \<in> set tools \<Longrightarrow> dict_get t ''name'' \<notin> set seen)
   \<Longrightarrow> unique_loop (map JObj tools) seen errors = Inr errors"
proof (induction tools arbitrary: seen)
  case Nil
  show ?case by simp
next
  case (Cons t ts)
  from Cons.prems(1) have "nonblank (dict_get t ''name'')" by simp
  then obtain s where s: "dict_get t ''name'' = JStr s" "s \<noteq> []" by (rule nonblank_cases)
  have fresh: "JStr s \<notin> set seen" using Cons.prems(3) [of t] s by simp
  have "unique_loop (map JObj ts) (seen @ [JStr s]) errors = Inr errors"
  proof (rule Cons.IH)
    show "list_all (\<lambda>t. nonblank (dict_get t ''name'')) ts" using Cons.prems(1) by simp
    show "distinct (map (\<lambda>t. dict_get t ''name'') ts)" using Cons.prems(2) by simp
    fix u assume u: "u \<in> set ts"
    hence "dict_get u ''name'' \<noteq> JStr s" using Cons.prems(2) s by (force simp: image_iff)
    moreover have "dict_get u ''name'' \<notin> set seen" using Cons.prems(3) [of u] u by simp
    ultimately show "dict_get u ''name'' \<notin> set (seen @ [JStr s])" by simp
  qed
  thus ?case using s fresh by (simp add: py_truthy_def py_hashable_def)
qed

subsection \<open>Categories\<close>

lemma set_foldl_set_add: "set (foldl set_add refd xs) = set refd \<union> set xs"
  by (induction xs arbitrary: refd) (auto simp: set_add_def)

lemma referenced_loop_dicts:
  "referenced_loop (map JObj tools) i errors refd
   = Inr (errors @ category_type_errors tools i, foldl set_add refd (category_refs tools))"
proof (induction tools arbitrary: i errors refd)
  case Nil
  show ?case by (simp add: category_refs_def)
next
  case (Cons t ts)
  show ?case
    by (cases "dict_get t ''category''")
       (simp_all add: Cons.IH category_refs_def py_truthy_def py_type_name_def)
qed

lemma validate_categories_dicts:
  "validate_categories (map JObj tools) categories
   = Inr (category_type_errors tools 0
          @ map missing_category_error
              (py_sorted (filter (\<lambda>c. c \<notin> set (keys categories))
                            (foldl set_add [] (category_refs tools))))
          @ map unused_category_error
              (py_sorted (filter (\<lambda>c. c \<notin> set (foldl set_add [] (category_refs tools)))
                            (keys categories))))"
  by (simp add: validate_categories_def referenced_loop_dicts Let_def)

lemma category_structure_valid:
  "list_all (\<lambda>item. valid_category (snd item)) categories
   \<Longrightarrow> validate_category_structure categories = []"
proof -
  have one: "category_findings (k, v) = []" if "valid_category v" for k v
  proof -
    from that obtain c where c: "v = JObj c"
      and nb: "nonblank (dict_get c ''name'')" "nonblank (dict_get c ''description'')"
      by (cases v) (auto simp: valid_category_def)
    have k: "has_key c f" if "nonblank (dict_get c f)" for f
    proof -
      from that have "map_of c f \<noteq> None"
        by (cases "map_of c f") (auto simp: dict_get_def dict_get_default_def nonblank_def)
      then obtain y where "map_of c f = Some y" by blast
      hence "(f, y) \<in> set c" by (rule map_of_SomeD)
      hence "fst (f, y) \<in> fst ` set c" by (rule imageI)
      thus ?thesis by (simp add: has_key_def keys_def)
    qed
    have f: "check_category_field k c f = []" if "nonblank (dict_get c f)" for f
      using that by (elim nonblank_cases) (simp add: check_category_field_def)
    show ?thesis using nb by (simp add: category_findings_def c k f)
  qed
  assume "list_all (\<lambda>item. valid_category (snd item)) categories"
  thus ?thesis
    by (induction categories) (auto simp: validate_category_structure_def one)
qed

subsection \<open>The dictionary \<open>json_tools\<close>\<close>

lemma map_of_dict_store: "map_of (dict_store jt k v) = (map_of jt)(k \<mapsto> v)"
  by (induction jt) (auto simp: fun_eq_iff)

lemma json_tools_loop_dicts:
  "list_all (\<lambda>t. py_hashable (dict_get t ''name'')) tools
   \<Longrightarrow> json_tools_loop (map JObj tools) jt = Inr (json_tools_of tools jt)"
  by (induction tools arbitrary: jt) (simp_all add: json_tools_of_def)

lemma map_of_json_tools_of:
  "map_of (json_tools_of tools jt) (JStr n)
   = (if list_ex (named n) tools
      then Some (dict_get (last (filter (named n) tools)) ''type'')
      else map_of jt (JStr n))"
proof (induction tools arbitrary: jt)
  case Nil
  show ?case by (simp add: json_tools_of_def)
next
  case (Cons t ts)
  have step: "json_tools_of (t # ts) jt
              = json_tools_of ts (dict_store jt (hash_key (dict_get t ''name'')) (dict_get t ''type''))"
    by (simp add: json_tools_of_def)
  let ?k = "hash_key (dict_get t ''name'')"
  show ?case
  proof (cases "list_ex (named n) ts")
    case True
    hence "filter (named n) ts \<noteq> []" by (simp add: filter_empty_conv list_ex_iff)
    hence "last (filter (named n) (t # ts)) = last (filter (named n) ts)" by simp
    moreover have "list_ex (named n) (t # ts)" using True by simp
    ultimately show ?thesis unfolding step Cons.IH using True by simp
  next
    case False
    hence none: "filter (named n) ts = []" by (simp add: filter_empty_conv list_ex_iff)
    show ?thesis
    proof (cases "named n t")
      case True
      hence "?k = JStr n" by (simp add: named_def)
      thus ?thesis unfolding step Cons.IH using True False none
        by (simp add: map_of_dict_store)
    next
      case nt: False
      hence "?k \<noteq> JStr n" by (simp add: named_def hash_key_eq_str)
      thus ?thesis unfolding step Cons.IH using nt False
        by (simp add: map_of_dict_store)
    qed
  qed
qed

lemma validate_filesystem_dicts:
  assumes "list_all (\<lambda>t. py_hashable (dict_get t ''name'')) tools"
    and "dict_get_default tools_data ''tools'' (JList []) = JList (map JObj tools)"
  shows "validate_filesystem_tools_in_json tools_data fs
         = Inr (concat (map (filesystem_finding (json_tools_of tools [])) fs))"
  using assms by (simp add: validate_filesystem_tools_in_json_def py_iter_def json_tools_loop_dicts)

subsection \<open>A valid catalog has no errors\<close>

lemma filter_distinct_map:
  "distinct (map f xs) \<Longrightarrow> x \<in> set xs \<Longrightarrow> filter (\<lambda>y. f y = f x) xs = [x]"
proof (induction xs)
  case Nil
  thus ?case by simp
next
  case (Cons a as)
  show ?case
  proof (cases "a = x")
    case True
    hence nx: "f x \<notin> f ` set as" using Cons.prems(1) by simp
    have "f y \<noteq> f x" if "y \<in> set as" for y
    proof -
      from that have "f y \<in> f ` set as" by (rule imageI)
      with nx show ?thesis by metis
    qed
    hence "filter (\<lambda>y. f y = f x) as = []" by (simp add: filter_empty_conv)
    thus ?thesis using True by simp
  next
    case False
    hence x: "x \<in> set as" using Cons.prems(2) by simp
    hence "f a \<noteq> f x" using Cons.prems(1) by (force simp: image_iff)
    thus ?thesis using Cons.IH x Cons.prems(1) by simp
  qed
qed

lemma category_refs_iff:
  "c \<in> set (category_refs tools)
   \<longleftrightarrow> c \<noteq> [] \<and> (\<exists>t \<in> set tools. dict_get t ''category'' = JStr c)"
proof (induction tools)
  case Nil
  show ?case by (simp add: category_refs_def)
next
  case (Cons t ts)
  have split: "category_refs (t # ts) = category_refs [t] @ category_refs ts"
    by (simp add: category_refs_def)
  have one: "c \<in> set (category_refs [t]) \<longleftrightarrow> c \<noteq> [] \<and> dict_get t ''category'' = JStr c"
    by (cases "dict_get t ''category''") (auto simp: category_refs_def)
  show ?case unfolding split by (auto simp: one Cons.IH)
qed

lemma category_type_errors_strings:
  "(\<And>t. t \<in> set tools \<Longrightarrow> \<exists>s. dict_get t ''category'' = JStr s)
   \<Longrightarrow> category_type_errors tools i = []"
proof (induction tools arbitrary: i)
  case Nil
  show ?case by simp
next
  case (Cons t ts)
  from Cons.prems [of t] obtain s where "dict_get t ''category'' = JStr s" by auto
  moreover have "category_type_errors ts (Suc i) = []" using Cons.prems by (intro Cons.IH) simp
  ultimately show ?case by simp
qed

lemma valid_tool_fields:
  assumes "valid_tool t"
  shows "nonblank (dict_get t ''name'')" "nonblank (dict_get t ''category'')"
  using assms by (simp_all add: valid_tool_def)

lemma valid_catalog_categories:
  assumes "valid_catalog tools categories"
  shows "validate_category_structure categories = []"
    and "validate_categories (map JObj tools) categories = Inr []"
proof -
  from assms have vt: "\<And>t. t \<in> set tools \<Longrightarrow> valid_tool t"
    and dk: "distinct (keys categories)"
    and defined: "\<And>t. t \<in> set tools \<Longrightarrow>
        \<exists>item \<in> set categories. dict_get t ''category'' = JStr (fst item) \<and> valid_category (snd item)"
    and used: "\<And>item. item \<in> set categories \<Longrightarrow>
        \<exists>t \<in> set tools. dict_get t ''category'' = JStr (fst item)"
    by (auto simp: valid_catalog_def list_all_iff list_ex_iff)
  have "valid_category (snd item)" if "item \<in> set categories" for item
  proof -
    from used [OF that] obtain t where t: "t \<in> set tools" "dict_get t ''category'' = JStr (fst item)"
      by blast
    from defined [OF t(1)] obtain item' where i': "item' \<in> set categories"
      "dict_get t ''category'' = JStr (fst item')" "valid_category (snd item')" by blast
    from t(2) i'(2) have "fst item' = fst item" by simp
    with dk that i'(1) have "item' = item"
      unfolding keys_def by (metis eq_key_imp_eq_value prod.collapse)
    with i'(3) show ?thesis by simp
  qed
  hence "list_all (\<lambda>item. valid_category (snd item)) categories" by (simp add: list_all_iff)
  thus "validate_category_structure categories = []" by (rule category_structure_valid)
  have strs: "\<exists>s. dict_get t ''category'' = JStr s" if "t \<in> set tools" for t
    using defined [OF that] by blast
  have no_type_errors: "category_type_errors tools 0 = []"
    using strs by (rule category_type_errors_strings)
  let ?refd = "foldl set_add [] (category_refs tools)"
  have refd: "set ?refd = set (category_refs tools)" by (simp add: set_foldl_set_add)
  have "c \<in> set (keys categories)" if "c \<in> set ?refd" for c
  proof -
    from that obtain t where t: "t \<in> set tools" "dict_get t ''category'' = JStr c"
      unfolding refd category_refs_iff by blast
    from defined [OF t(1)] t(2) show ?thesis by (force simp: keys_def)
  qed
  hence no_missing: "filter (\<lambda>c. c \<notin> set (keys categories)) ?refd = []"
    by (simp add: filter_empty_conv)
  have "c \<in> set ?refd" if "c \<in> set (keys categories)" for c
  proof -
    from that obtain item where item: "item \<in> set categories" "c = fst item"
      by (auto simp: keys_def)
    from used [OF item(1)] obtain t where t: "t \<in> set tools" "dict_get t ''category'' = JStr c"
      using item(2) by blast
    from vt [OF t(1)] have "nonblank (dict_get t ''category'')" by (rule valid_tool_fields)
    hence "c \<noteq> []" using t(2) by (auto elim: nonblank_cases)
    thus ?thesis unfolding refd category_refs_iff using t by blast
  qed
  hence no_unused: "filter (\<lambda>c. c \<notin> set ?refd) (keys categories) = []"
    by (simp add: filter_empty_conv)
  show "validate_categories (map JObj tools) categories = Inr []"
    unfolding validate_categories_dicts no_type_errors no_missing no_unused
    by (simp add: py_sorted_def)
qed

lemma nonblank_hashable: "nonblank v \<Longrightarrow> py_hashable v"
  by (erule nonblank_cases) (simp add: py_hashable_def)

lemma filesystem_agrees_no_errors:
  assumes dn: "distinct (map (\<lambda>t. dict_get t ''name'') tools)"
    and ag: "filesystem_agrees tools fs"
  shows "concat (map (filesystem_finding (json_tools_of tools [])) fs) = []"
proof -
  have "filesystem_finding (json_tools_of tools []) item = []" if "item \<in> set fs" for item
  proof -
    from ag that obtain t where t: "t \<in> set tools" "dict_get t ''name'' = JStr (fst item)"
      "dict_get t ''type'' = JStr (snd item)"
      by (auto simp: filesystem_agrees_def list_all_iff list_ex_iff)
    have "filter (\<lambda>y. dict_get y ''name'' = dict_get t ''name'') tools = [t]"
      using dn t(1) by (rule filter_distinct_map)
    moreover have "named (fst item) = (\<lambda>y. dict_get y ''name'' = dict_get t ''name'')"
      by (simp add: fun_eq_iff named_def t(2))
    ultimately have "filter (named (fst item)) tools = [t]" by simp
    moreover have "list_ex (named (fst item)) tools" using t by (auto simp: list_ex_iff named_def)
    ultimately have "map_of (json_tools_of tools []) (JStr (fst item)) = Some (JStr (snd item))"
      by (simp add: map_of_json_tools_of t(3))
    thus ?thesis by (simp add: filesystem_finding_def)
  qed
  thus ?thesis by simp
qed

text \<open>
  C2. A catalog in which every tool is an object with exactly the four fields, each a
  string with a character that is not white space, the type one of the four tool types,
  the names pairwise distinct, every referenced category defined with such a name and
  description, every defined category referenced, and every tool of the filesystem view
  listed under its name and type, gets the empty error list, with and without a
  filesystem view and in every iteration order of the sets.
\<close>

theorem C2_valid_catalog_no_errors:
  assumes "enumerates h"
    and "valid_catalog tools categories"
    and "filesystem_agrees tools fs"
    and "map_of tools_data ''tools'' = Some (JList (map JObj tools))"
    and "map_of tools_data ''categories'' = Some (JObj categories)"
  shows "validate_tools_json h tools_data (Some fs) = Inr []
         \<and> validate_tools_json h tools_data None = Inr []"
proof -
  have keys: "has_key tools_data ''tools''" "has_key tools_data ''categories''"
    using assms(4,5) by (auto simp: has_key_def keys_def dest!: map_of_SomeD intro: rev_image_eqI)
  have vals: "dict_get_default tools_data ''tools'' (JList []) = JList (map JObj tools)"
    "dict_get_default tools_data ''categories'' (JObj []) = JObj categories"
    using assms(4,5) by (simp_all add: dict_get_default_def)
  from assms(2) have vt: "list_all valid_tool tools"
    and dn: "distinct (map (\<lambda>t. dict_get t ''name'') tools)"
    by (simp_all add: valid_catalog_def)
  from vt have names: "list_all (\<lambda>t. nonblank (dict_get t ''name'')) tools"
    by (simp add: list_all_iff valid_tool_fields)
  hence hashable: "list_all (\<lambda>t. py_hashable (dict_get t ''name'')) tools"
    by (simp add: list_all_iff nonblank_hashable)
  have a: "tools_loop h (map JObj tools) 0 = Inr []"
    using assms(1) vt by (rule valid_tools_loop)
  have b: "validate_tool_names_unique (map JObj tools) = Inr []"
    unfolding validate_tool_names_unique_def using names dn by (rule unique_loop_distinct) simp
  note c = valid_catalog_categories [OF assms(2)]
  have d: "validate_filesystem_tools_in_json tools_data fs = Inr []"
    using validate_filesystem_dicts [OF hashable vals(1)] filesystem_agrees_no_errors [OF dn assms(3)]
    by simp
  show ?thesis
    unfolding validate_tools_json_def by (simp add: keys vals a b c d)
qed

theorem C2_valid_catalog_witness:
  "enumerates (\<lambda>xs. xs)
   \<and> valid_catalog
       [[(''name'', JStr ''foo''), (''type'', JStr ''skill''), (''description'', JStr ''x''),
         (''category'', JStr ''bar'')]]
       [(''bar'', JObj [(''name'', JStr ''Bar''), (''description'', JStr ''All bars'')])]
   \<and> filesystem_agrees
       [[(''name'', JStr ''foo''), (''type'', JStr ''skill''), (''description'', JStr ''x''),
         (''category'', JStr ''bar'')]]
       [(''foo'', ''skill'')]
   \<and> validate_tools_json (\<lambda>xs. xs)
       [(''tools'', JList [JObj [(''name'', JStr ''foo''), (''type'', JStr ''skill''),
                                (''description'', JStr ''x''), (''category'', JStr ''bar'')]]),
        (''categories'',
         JObj [(''bar'', JObj [(''name'', JStr ''Bar''), (''description'', JStr ''All bars'')])])]
       (Some [(''foo'', ''skill'')])
     = Inr []"
proof -
  let ?t = "[(''name'', JStr ''foo''), (''type'', JStr ''skill''), (''description'', JStr ''x''),
             (''category'', JStr ''bar'')]"
  let ?c = "[(''bar'', JObj [(''name'', JStr ''Bar''), (''description'', JStr ''All bars'')])]"
  have h: "enumerates (\<lambda>xs. xs)" by (rule identity_enumerates)
  have v: "valid_catalog [?t] ?c" by code_simp
  have f: "filesystem_agrees [?t] [(''foo'', ''skill'')]" by code_simp
  have m: "map_of [(''tools'', JList (map JObj [?t])), (''categories'', JObj ?c)] ''tools''
           = Some (JList (map JObj [?t]))"
    "map_of [(''tools'', JList (map JObj [?t])), (''categories'', JObj ?c)] ''categories''
           = Some (JObj ?c)"
    by simp_all
  from C2_valid_catalog_no_errors [OF h v f m] h v f show ?thesis by simp
qed

section \<open>Category closure\<close>

lemma count_list_distinct: "distinct xs \<Longrightarrow> count_list xs x = (if x \<in> set xs then 1 else 0)"
  by (induction xs) auto

lemma count_list_map_inj:
  "(\<And>a b. f a = f b \<Longrightarrow> a = b) \<Longrightarrow> count_list (map f xs) (f x) = count_list xs x"
  by (induction xs) auto

lemma count_list_absent: "x \<notin> set xs \<Longrightarrow> count_list xs x = 0"
  by (induction xs) auto

lemma missing_category_error_inj:
  "missing_category_error a = missing_category_error b \<Longrightarrow> a = b"
  by (simp add: missing_category_error_def quoted_def)

lemma unused_category_error_inj:
  "unused_category_error a = unused_category_error b \<Longrightarrow> a = b"
  by (simp add: unused_category_error_def quoted_def)

lemma last_missing: "last (missing_category_error c) = CHR ''n''"
  by (simp add: missing_category_error_def)

lemma last_unused: "last (unused_category_error c) = CHR ''s''"
  by (simp add: unused_category_error_def)

lemma missing_not_unused: "missing_category_error a \<noteq> unused_category_error b"
proof
  assume "missing_category_error a = unused_category_error b"
  hence "last (missing_category_error a) = last (unused_category_error b)" by simp
  thus False by (simp add: last_missing last_unused)
qed

lemma hd_category_type_errors: "x \<in> set (category_type_errors tools i) \<Longrightarrow> hd x = CHR ''T''"
proof (induction tools arbitrary: i)
  case Nil
  thus ?case by simp
next
  case (Cons t ts)
  thus ?case by (cases "dict_get t ''category''") (auto split: if_splits)
qed

lemma hd_closure_errors:
  "hd (missing_category_error c) = CHR ''C''" "hd (unused_category_error c) = CHR ''C''"
  by (simp_all add: missing_category_error_def unused_category_error_def)

lemma type_errors_not_closure:
  "missing_category_error c \<notin> set (category_type_errors tools i)"
  "unused_category_error c \<notin> set (category_type_errors tools i)"
  using hd_category_type_errors [of "missing_category_error c" tools i]
    hd_category_type_errors [of "unused_category_error c" tools i]
  by (auto simp: hd_closure_errors)

lemma py_sorted_props: "distinct (py_sorted xs)" "set (py_sorted xs) = set xs"
  by (simp_all add: py_sorted_def)

lemma referenced_iff: "referenced tools c \<longleftrightarrow> c \<in> set (foldl set_add [] (category_refs tools))"
  by (simp add: referenced_def set_foldl_set_add category_refs_iff list_ex_iff)

lemma closure_counts:
  fixes tools categories
  defines "errors \<equiv>
     category_type_errors tools 0
     @ map missing_category_error
         (py_sorted (filter (\<lambda>c. c \<notin> set (keys categories))
                       (foldl set_add [] (category_refs tools))))
     @ map unused_category_error
         (py_sorted (filter (\<lambda>c. c \<notin> set (foldl set_add [] (category_refs tools)))
                       (keys categories)))"
  shows "count_list errors (missing_category_error c)
         = (if referenced tools c \<and> \<not> has_key categories c then 1 else 0)"
    and "count_list errors (unused_category_error c)
         = (if has_key categories c \<and> \<not> referenced tools c then 1 else 0)"
proof -
  let ?R = "foldl set_add [] (category_refs tools)"
  let ?M = "py_sorted (filter (\<lambda>c. c \<notin> set (keys categories)) ?R)"
  let ?U = "py_sorted (filter (\<lambda>c. c \<notin> set ?R) (keys categories))"
  have m1: "count_list (map missing_category_error ?M) (missing_category_error c)
            = (if c \<in> set ?M then 1 else 0)"
    by (simp add: count_list_map_inj missing_category_error_inj count_list_distinct py_sorted_props(1))
  have m2: "count_list (map unused_category_error ?U) (missing_category_error c) = 0"
    by (rule count_list_absent) (auto simp: missing_not_unused)
  have m3: "count_list (category_type_errors tools 0) (missing_category_error c) = 0"
    by (rule count_list_absent) (rule type_errors_not_closure)
  have u1: "count_list (map unused_category_error ?U) (unused_category_error c)
            = (if c \<in> set ?U then 1 else 0)"
    by (simp add: count_list_map_inj unused_category_error_inj count_list_distinct py_sorted_props(1))
  have u2: "count_list (map missing_category_error ?M) (unused_category_error c) = 0"
    by (rule count_list_absent) (auto simp: missing_not_unused [symmetric])
  have u3: "count_list (category_type_errors tools 0) (unused_category_error c) = 0"
    by (rule count_list_absent) (rule type_errors_not_closure)
  have inM: "c \<in> set ?M \<longleftrightarrow> referenced tools c \<and> \<not> has_key categories c"
    by (auto simp: py_sorted_props(2) referenced_iff has_key_def)
  have inU: "c \<in> set ?U \<longleftrightarrow> has_key categories c \<and> \<not> referenced tools c"
    by (auto simp: py_sorted_props(2) referenced_iff has_key_def)
  show "count_list errors (missing_category_error c)
         = (if referenced tools c \<and> \<not> has_key categories c then 1 else 0)"
    unfolding errors_def count_list_append m1 m2 m3 inM by simp
  show "count_list errors (unused_category_error c)
         = (if has_key categories c \<and> \<not> referenced tools c then 1 else 0)"
    unfolding errors_def count_list_append u1 u2 u3 inU by simp
qed

text \<open>
  C6. On every catalog (a list of tool objects and a mapping of categories) the category
  check returns, and in what it returns each category has one missing-category error when
  it is referenced and not defined and none otherwise, and one unused-category error when
  it is defined and not referenced and none otherwise, each count resting on its own
  condition only. On the catalog with the single tool \<open>foo\<close> of category \<open>bar\<close> and no
  category defined, the category check and the whole validator return exactly the error
  that \<open>bar\<close> is missing.
\<close>

theorem C6_category_closure:
  assumes "enumerates h"
  shows "(\<exists>errors. validate_categories (map JObj tools) categories = Inr errors
            \<and> count_list errors (missing_category_error c)
                = (if referenced tools c \<and> \<not> has_key categories c then 1 else 0)
            \<and> count_list errors (unused_category_error c)
                = (if has_key categories c \<and> \<not> referenced tools c then 1 else 0))
         \<and> validate_categories
               [JObj [(''name'', JStr ''foo''), (''type'', JStr ''skill''),
                      (''description'', JStr ''x''), (''category'', JStr ''bar'')]] []
             = Inr [missing_category_error ''bar'']
         \<and> validate_tools_json h
               [(''tools'', JList [JObj [(''name'', JStr ''foo''), (''type'', JStr ''skill''),
                                        (''description'', JStr ''x''), (''category'', JStr ''bar'')]]),
                (''categories'', JObj [])] None
             = Inr [missing_category_error ''bar'']"
proof -
  let ?foo = "[(''name'', JStr ''foo''), (''type'', JStr ''skill''),
               (''description'', JStr ''x''), (''category'', JStr ''bar'')]"
  have general: "\<exists>errors. validate_categories (map JObj tools) categories = Inr errors
            \<and> count_list errors (missing_category_error c)
                = (if referenced tools c \<and> \<not> has_key categories c then 1 else 0)
            \<and> count_list errors (unused_category_error c)
                = (if has_key categories c \<and> \<not> referenced tools c then 1 else 0)"
    unfolding validate_categories_dicts using closure_counts [of tools categories c] by blast
  have cats: "validate_categories [JObj ?foo] [] = Inr [missing_category_error ''bar'']"
    by code_simp
  have "valid_tool ?foo" by code_simp
  hence per_tool: "tools_loop h (map JObj [?foo]) 0 = Inr []"
    using assms by (intro valid_tools_loop) simp_all
  have unique: "validate_tool_names_unique [JObj ?foo] = Inr []" by code_simp
  have "validate_tools_json h [(''tools'', JList [JObj ?foo]), (''categories'', JObj [])] None
        = Inr [missing_category_error ''bar'']"
    unfolding validate_tools_json_def using per_tool unique cats
    by (simp add: has_key_def keys_def dict_get_default_def validate_category_structure_def)
  with general cats show ?thesis by blast
qed

theorem C6_category_closure_witness:
  "enumerates (\<lambda>xs. xs)
   \<and> validate_categories
       [JObj [(''name'', JStr ''a''), (''category'', JStr ''bar'')],
        JObj [(''name'', JStr ''b''), (''category'', JStr ''baz'')]]
       [(''baz'', JObj []), (''qux'', JObj [])]
     = Inr [missing_category_error ''bar'', unused_category_error ''qux'']
   \<and> count_list [missing_category_error ''bar'', unused_category_error ''qux'']
       (missing_category_error ''bar'') = 1
   \<and> count_list [missing_category_error ''bar'', unused_category_error ''qux'']
       (unused_category_error ''qux'') = 1
   \<and> count_list [missing_category_error ''bar'', unused_category_error ''qux'']
       (unused_category_error ''baz'') = 0
   \<and> validate_tools_json (\<lambda>xs. xs)
       [(''tools'', JList [JObj [(''name'', JStr ''foo''), (''type'', JStr ''skill''),
                                (''description'', JStr ''x''), (''category'', JStr ''bar'')]]),
        (''categories'', JObj [])] None
     = Inr [missing_category_error ''bar'']"
proof -
  let ?tools = "[[(''name'', JStr ''a''), (''category'', JStr ''bar'')],
                 [(''name'', JStr ''b''), (''category'', JStr ''baz'')]]"
  let ?cats = "[(''baz'', JObj []), (''qux'', JObj [])]"
  let ?errors = "[missing_category_error ''bar'', unused_category_error ''qux'']"
  have h: "enumerates (\<lambda>xs. xs)" by (rule identity_enumerates)
  have run: "validate_categories (map JObj ?tools) ?cats = Inr ?errors" by code_simp
  have conds: "referenced ?tools ''bar''" "\<not> has_key ?cats ''bar''"
    "has_key ?cats ''qux''" "\<not> referenced ?tools ''qux''"
    "has_key ?cats ''baz''" "referenced ?tools ''baz''"
    by code_simp+
  note bar = C6_category_closure [OF h, of ?tools ?cats "''bar''"]
  note qux = C6_category_closure [OF h, of ?tools ?cats "''qux''"]
  note baz = C6_category_closure [OF h, of ?tools ?cats "''baz''"]
  from bar run conds have 1: "count_list ?errors (missing_category_error ''bar'') = 1" by simp
  from qux run conds have 2: "count_list ?errors (unused_category_error ''qux'') = 1" by simp
  from baz run conds have 3: "count_list ?errors (unused_category_error ''baz'') = 0" by simp
  from bar have 4: "validate_tools_json (\<lambda>xs. xs)
       [(''tools'', JList [JObj [(''name'', JStr ''foo''), (''type'', JStr ''skill''),
                                (''description'', JStr ''x''), (''category'', JStr ''bar'')]]),
        (''categories'', JObj [])] None
     = Inr [missing_category_error ''bar'']" by blast
  from h run 1 2 3 4 show ?thesis by simp
qed

section \<open>Filesystem agreement\<close>

lemma filesystem_finding_agreement:
  "filesystem_finding (json_tools_of tools []) item = agreement tools item"
proof (cases "filter (named (fst item)) tools = []")
  case True
  hence "\<not> list_ex (named (fst item)) tools" by (simp add: filter_empty_conv list_ex_iff)
  thus ?thesis using True
    by (simp add: filesystem_finding_def agreement_def map_of_json_tools_of)
next
  case False
  hence "list_ex (named (fst item)) tools" by (simp add: filter_empty_conv list_ex_iff)
  thus ?thesis using False
    by (simp add: filesystem_finding_def agreement_def map_of_json_tools_of Let_def)
qed

text \<open>
  C4, as the code has it. When the tools are objects whose names can be hashed, the
  filesystem check returns, in the order of the view, for each of its items: one
  missing-from-tools.json error when no tool has the name; otherwise nothing when the last
  tool of that name has the type of the view, and one type-mismatch error when it has
  another. Nothing else is returned, so no error is about a tool that is absent from the
  view.
\<close>

theorem C4_filesystem_agreement:
  assumes "list_all (\<lambda>t. py_hashable (dict_get t ''name'')) tools"
    and "dict_get_default tools_data ''tools'' (JList []) = JList (map JObj tools)"
  shows "validate_filesystem_tools_in_json tools_data fs = Inr (concat (map (agreement tools) fs))"
proof -
  have "filesystem_finding (json_tools_of tools []) = agreement tools"
    by (rule ext) (rule filesystem_finding_agreement)
  thus ?thesis using validate_filesystem_dicts [OF assms, of fs] by simp
qed

theorem C4_filesystem_agreement_witness:
  "list_all (\<lambda>t. py_hashable (dict_get t ''name''))
     [[(''name'', JStr ''a''), (''type'', JStr ''skill'')],
      [(''name'', JStr ''b''), (''type'', JStr ''agent'')],
      [(''name'', JStr ''d''), (''type'', JStr ''gem'')]]
   \<and> validate_filesystem_tools_in_json
       [(''tools'', JList [JObj [(''name'', JStr ''a''), (''type'', JStr ''skill'')],
                          JObj [(''name'', JStr ''b''), (''type'', JStr ''agent'')],
                          JObj [(''name'', JStr ''d''), (''type'', JStr ''gem'')]])]
       [(''a'', ''skill''), (''b'', ''command''), (''c'', ''agent'')]
     = Inr [''Tool 'b' has mismatched type: filesystem=command, tools.json=agent'',
            ''Tool 'c' (type: agent) found in filesystem but missing from tools.json'']"
proof -
  let ?tools = "[[(''name'', JStr ''a''), (''type'', JStr ''skill'')],
                 [(''name'', JStr ''b''), (''type'', JStr ''agent'')],
                 [(''name'', JStr ''d''), (''type'', JStr ''gem'')]]"
  let ?fs = "[(''a'', ''skill''), (''b'', ''command''), (''c'', ''agent'')]"
  have hashable: "list_all (\<lambda>t. py_hashable (dict_get t ''name'')) ?tools" by code_simp
  have tools: "dict_get_default [(''tools'', JList (map JObj ?tools))] ''tools'' (JList [])
               = JList (map JObj ?tools)"
    by (simp add: dict_get_default_def)
  have findings: "concat (map (agreement ?tools) ?fs)
        = [''Tool 'b' has mismatched type: filesystem=command, tools.json=agent'',
           ''Tool 'c' (type: agent) found in filesystem but missing from tools.json'']"
    by code_simp
  from C4_filesystem_agreement [OF hashable tools, of ?fs] hashable findings
  show ?thesis by simp
qed

text \<open>
  The claim as stated fails when two tools share a name: the view lists \<open>foo\<close> as a skill,
  the catalog has a tool \<open>foo\<close> of type skill, and still a type-mismatch error is returned,
  because a later tool \<open>foo\<close> of type command overwrote the entry.
\<close>

theorem C4_same_typed_entry_counterexample:
  "dict_get [(''name'', JStr ''foo''), (''type'', JStr ''skill'')] ''name'' = JStr ''foo''
   \<and> dict_get [(''name'', JStr ''foo''), (''type'', JStr ''skill'')] ''type'' = JStr ''skill''
   \<and> validate_filesystem_tools_in_json
       [(''tools'', JList [JObj [(''name'', JStr ''foo''), (''type'', JStr ''skill'')],
                          JObj [(''name'', JStr ''foo''), (''type'', JStr ''command'')]])]
       [(''foo'', ''skill'')]
     = Inr [''Tool 'foo' has mismatched type: filesystem=skill, tools.json=command'']"
  by code_simp

section \<open>Where the validator returns\<close>

text \<open>
  The four prerequisite checks: a document without \<open>tools\<close>, without \<open>categories\<close>, with
  a \<open>tools\<close> value that is not a list or a \<open>categories\<close> value that is not a mapping gets
  one error and nothing else is checked.
\<close>

lemma prerequisite_checks:
  "\<not> has_key tools_data ''tools''
   \<Longrightarrow> validate_tools_json h tools_data helpers = Inr [''Missing required 'tools' field'']"
  "has_key tools_data ''tools'' \<Longrightarrow> \<not> has_key tools_data ''categories''
   \<Longrightarrow> validate_tools_json h tools_data helpers = Inr [''Missing required 'categories' field'']"
  "has_key tools_data ''tools'' \<Longrightarrow> has_key tools_data ''categories''
   \<Longrightarrow> py_type_name (dict_get tools_data ''tools'') \<noteq> ''list''
   \<Longrightarrow> validate_tools_json h tools_data helpers = Inr [quoted ''tools'' @ '' field must be an array'']"
  "has_key tools_data ''tools'' \<Longrightarrow> has_key tools_data ''categories''
   \<Longrightarrow> py_type_name (dict_get tools_data ''tools'') = ''list''
   \<Longrightarrow> py_type_name (dict_get tools_data ''categories'') \<noteq> ''dict''
   \<Longrightarrow> validate_tools_json h tools_data helpers
       = Inr [quoted ''categories'' @ '' field must be an object'']"
proof -
  have same: "dict_get_default d k dflt = dict_get d k" if "has_key d k" for d k dflt
  proof -
    from that have "map_of d k \<noteq> None" by (simp add: has_key_def keys_def map_of_eq_None_iff)
    thus ?thesis by (auto simp: dict_get_def dict_get_default_def)
  qed
  show "\<not> has_key tools_data ''tools''
   \<Longrightarrow> validate_tools_json h tools_data helpers = Inr [''Missing required 'tools' field'']"
    by (simp add: validate_tools_json_def)
  show "has_key tools_data ''tools'' \<Longrightarrow> \<not> has_key tools_data ''categories''
   \<Longrightarrow> validate_tools_json h tools_data helpers = Inr [''Missing required 'categories' field'']"
    by (simp add: validate_tools_json_def)
  show "has_key tools_data ''tools'' \<Longrightarrow> has_key tools_data ''categories''
   \<Longrightarrow> py_type_name (dict_get tools_data ''tools'') \<noteq> ''list''
   \<Longrightarrow> validate_tools_json h tools_data helpers = Inr [quoted ''tools'' @ '' field must be an array'']"
    by (cases "dict_get tools_data ''tools''")
       (simp_all add: validate_tools_json_def same py_type_name_def)
  show "has_key tools_data ''tools'' \<Longrightarrow> has_key tools_data ''categories''
   \<Longrightarrow> py_type_name (dict_get tools_data ''tools'') = ''list''
   \<Longrightarrow> py_type_name (dict_get tools_data ''categories'') \<noteq> ''dict''
   \<Longrightarrow> validate_tools_json h tools_data helpers
       = Inr [quoted ''categories'' @ '' field must be an object'']"
    by (cases "dict_get tools_data ''tools''"; cases "dict_get tools_data ''categories''")
       (simp_all add: validate_tools_json_def same py_type_name_def)
qed

text \<open>
  Past these checks the validator returns its list whenever every tool is an object whose
  name and type can be hashed.
\<close>

lemma tool_structure_returns:
  "py_hashable (dict_get t ''type'') \<Longrightarrow> \<exists>errors. validate_tool_structure h t i = Inr errors"
  by (simp add: validate_tool_structure_def Let_def set_contains_def)

lemma tools_loop_returns:
  "list_all (\<lambda>t. py_hashable (dict_get t ''type'')) tools
   \<Longrightarrow> \<exists>errors. tools_loop h (map JObj tools) i = Inr errors"
proof (induction tools arbitrary: i)
  case Nil
  show ?case by simp
next
  case (Cons t ts)
  from Cons.prems obtain e1 where "validate_tool_structure h t i = Inr e1"
    using tool_structure_returns [of t h i] by auto
  moreover from Cons obtain e2 where "tools_loop h (map JObj ts) (Suc i) = Inr e2" by fastforce
  ultimately show ?case by simp
qed

lemma unique_loop_dicts:
  "list_all (\<lambda>t. py_hashable (dict_get t ''name'')) tools
   \<Longrightarrow> unique_loop (map JObj tools) seen errors = Inr (errors @ duplicate_errors tools seen)"
  by (induction tools arbitrary: seen errors) simp_all

lemma validator_returns:
  assumes "list_all (\<lambda>t. py_hashable (dict_get t ''name'')) tools"
    and "list_all (\<lambda>t. py_hashable (dict_get t ''type'')) tools"
    and "map_of tools_data ''tools'' = Some (JList (map JObj tools))"
    and "map_of tools_data ''categories'' = Some (JObj categories)"
  shows "\<exists>errors. validate_tools_json h tools_data helpers = Inr errors"
proof -
  have keys: "has_key tools_data ''tools''" "has_key tools_data ''categories''"
    using assms(3,4) by (auto simp: has_key_def keys_def dest!: map_of_SomeD intro: rev_image_eqI)
  have vals: "dict_get_default tools_data ''tools'' (JList []) = JList (map JObj tools)"
    "dict_get_default tools_data ''categories'' (JObj []) = JObj categories"
    using assms(3,4) by (simp_all add: dict_get_default_def)
  obtain e1 where a: "tools_loop h (map JObj tools) 0 = Inr e1"
    using tools_loop_returns [OF assms(2)] by blast
  have b: "validate_tool_names_unique (map JObj tools) = Inr (duplicate_errors tools [])"
    by (simp add: validate_tool_names_unique_def unique_loop_dicts [OF assms(1)])
  note c = validate_categories_dicts [of tools categories]
  note d = validate_filesystem_dicts [OF assms(1) vals(1)]
  show ?thesis
    unfolding validate_tools_json_def by (cases helpers) (simp_all add: keys vals a b c d)
qed

text \<open>
  When every name that counts as true is a string, the uniqueness check gives, for a
  non-empty name shared by \<open>N\<close> tools, \<open>N - 1\<close> duplicate errors.
\<close>

lemma duplicate_error_inj: "duplicate_error (JStr a) = duplicate_error (JStr b) \<Longrightarrow> a = b"
  by (simp add: duplicate_error_def quoted_def py_str_def)

lemma string_or_falsy_cases:
  assumes "string_or_falsy v"
  obtains s where "v = JStr s" "s \<noteq> []" "py_truthy v" | "\<not> py_truthy v"
  using assms by (cases v) (auto simp: string_or_falsy_def py_truthy_def)

lemma duplicate_errors_count:
  "list_all (\<lambda>t. string_or_falsy (dict_get t ''name'')) tools \<Longrightarrow> n \<noteq> []
   \<Longrightarrow> count_list (duplicate_errors tools seen) (duplicate_error (JStr n))
       = (if JStr n \<in> set seen then length (filter (named n) tools)
          else length (filter (named n) tools) - 1)"
proof (induction tools arbitrary: seen)
  case Nil
  show ?case by simp
next
  case (Cons t ts)
  from Cons.prems have sf: "string_or_falsy (dict_get t ''name'')"
    and rest: "list_all (\<lambda>t. string_or_falsy (dict_get t ''name'')) ts" by simp_all
  note ih = Cons.IH [OF rest Cons.prems(2)]
  from sf show ?case
  proof (cases rule: string_or_falsy_cases)
    case (1 s)
    show ?thesis
    proof (cases "s = n")
      case True
      thus ?thesis using 1 ih [of seen] ih [of "seen @ [JStr n]"] by (simp add: named_def [abs_def])
    next
      case False
      hence "duplicate_error (JStr s) \<noteq> duplicate_error (JStr n)"
        using duplicate_error_inj by blast
      thus ?thesis using 1 False ih [of seen] ih [of "seen @ [JStr s]"] by (simp add: named_def [abs_def])
    qed
  next
    case 2
    hence "dict_get t ''name'' \<noteq> JStr n" using Cons.prems(2) by (auto simp: py_truthy_def)
    thus ?thesis using 2 ih [of seen] by (simp add: named_def [abs_def])
  qed
qed

lemma string_or_falsy_hashable: "string_or_falsy v \<Longrightarrow> py_truthy v \<Longrightarrow> py_hashable v"
  by (cases v) (auto simp: string_or_falsy_def py_hashable_def)

lemma unique_loop_strings:
  "list_all (\<lambda>t. string_or_falsy (dict_get t ''name'')) tools
   \<Longrightarrow> unique_loop (map JObj tools) seen errors = Inr (errors @ duplicate_errors tools seen)"
proof (induction tools arbitrary: seen errors)
  case Nil
  show ?case by simp
next
  case (Cons t ts)
  from Cons.prems have sf: "string_or_falsy (dict_get t ''name'')" by simp
  from Cons.prems have ih: "unique_loop (map JObj ts) seen' errors'
      = Inr (errors' @ duplicate_errors ts seen')" for seen' errors'
    by (intro Cons.IH) simp
  show ?case using string_or_falsy_hashable [OF sf] by (simp add: ih)
qed

lemma duplicate_names_count:
  assumes "list_all (\<lambda>t. string_or_falsy (dict_get t ''name'')) tools" and "n \<noteq> []"
  shows "\<exists>errors. validate_tool_names_unique (map JObj tools) = Inr errors
           \<and> count_list errors (duplicate_error (JStr n)) = length (filter (named n) tools) - 1"
  using unique_loop_strings [OF assms(1), of "[]" "[]"] duplicate_errors_count [OF assms, of "[]"]
  by (simp add: validate_tool_names_unique_def)

section \<open>Inputs on which the validator raises\<close>

text \<open>
  C1. On a catalog whose \<open>tools\<close> value is a list and whose \<open>categories\<close> value is a
  mapping the validator should never raise. It does, whatever the iteration order and with
  or without a filesystem view: a tool entry that is not an object is reported by the first
  loop and then reaches \<open>tool.get("name")\<close> in \<open>validate_tool_names_unique\<close>
  (\<open>AttributeError\<close>), and a tool whose name is a non-empty list reaches
  \<open>name in seen_names\<close> there (\<open>TypeError\<close>).
\<close>

theorem C1_validator_raises:
  "validate_tools_json h [(''tools'', JList [JStr ''x'']), (''categories'', JObj [])] helpers
     = Inl AttributeError
   \<and> validate_tools_json h
       [(''tools'', JList [JObj [(''name'', JList [JStr ''x''])]]), (''categories'', JObj [])]
       helpers
     = Inl TypeError"
  by (simp add: validate_tools_json_def has_key_def keys_def dict_get_default_def dict_get_def
      validate_tool_structure_def Let_def py_truthy_def py_hashable_def
      validate_tool_names_unique_def attr_get_def attr_get_default_def)

text \<open>
  C5. With \<open>N\<close> tools of one name the uniqueness check should give \<open>N - 1\<close> errors for
  that name on every catalog whose tools are objects. On the catalog below, where two tools
  are named \<open>a\<close> and a third has a list as its name, it gives no error list at all: it
  raises \<open>TypeError\<close>.
\<close>

theorem C5_unique_check_raises:
  "validate_tool_names_unique
     [JObj [(''name'', JList [JStr ''x''])], JObj [(''name'', JStr ''a'')],
      JObj [(''name'', JStr ''a'')]]
   = Inl TypeError"
  by code_simp

section \<open>The order of the findings for one tool\<close>

text \<open>
  When nothing raises, the errors come in five groups: per tool in the order of the tools,
  duplicate names, category definitions in the order of the mapping, category closure, and
  filesystem agreement in the order of the view.
\<close>

lemma validator_groups:
  assumes "map_of tools_data ''tools'' = Some (JList tools)"
    and "map_of tools_data ''categories'' = Some (JObj categories)"
    and "tools_loop h tools 0 = Inr tool_errors"
    and "validate_tool_names_unique tools = Inr unique_errors"
    and "validate_categories tools categories = Inr category_errors"
    and "validate_filesystem_tools_in_json tools_data fs = Inr filesystem_errors"
  shows "validate_tools_json h tools_data (Some fs)
         = Inr (tool_errors @ unique_errors @ validate_category_structure categories
                @ category_errors @ filesystem_errors)"
proof -
  have keys: "has_key tools_data ''tools''" "has_key tools_data ''categories''"
    using assms(1,2) by (auto simp: has_key_def keys_def dest!: map_of_SomeD intro: rev_image_eqI)
  have vals: "dict_get_default tools_data ''tools'' (JList []) = JList tools"
    "dict_get_default tools_data ''categories'' (JObj []) = JObj categories"
    using assms(1,2) by (simp_all add: dict_get_default_def)
  show ?thesis
    unfolding validate_tools_json_def by (simp add: keys vals assms(3-6))
qed

text \<open>
  C3. Two runs on the same input should give the same errors in the same order. The loop
  over \<open>missing_fields\<close> iterates a set of strings without sorting it, so the order of the
  missing-field errors of one tool follows the hash seed of the process: on the catalog
  with the single tool \<open>{}\<close>, a run that iterates in the order the set literal is written
  and a run that iterates in alphabetical order return the same four errors in different
  orders.
\<close>

theorem C3_order_depends_on_hash_seed:
  "validate_tools_json (\<lambda>xs. xs) [(''tools'', JList [JObj []]), (''categories'', JObj [])] None
     = Inr [''Tool 'tool[0]' is missing required field: name'',
            ''Tool 'tool[0]' is missing required field: description'',
            ''Tool 'tool[0]' is missing required field: type'',
            ''Tool 'tool[0]' is missing required field: category'']
   \<and> validate_tools_json sort [(''tools'', JList [JObj []]), (''categories'', JObj [])] None
     = Inr [''Tool 'tool[0]' is missing required field: category'',
            ''Tool 'tool[0]' is missing required field: description'',
            ''Tool 'tool[0]' is missing required field: name'',
            ''Tool 'tool[0]' is missing required field: type'']"
  by code_simp

section \<open>A tool without a description\<close>

lemma distinct_singleton: "distinct xs \<Longrightarrow> set xs = {a} \<Longrightarrow> xs = [a]"
proof (cases xs)
  case Nil
  assume "set xs = {a}"
  with Nil show ?thesis by simp
next
  case (Cons x ys)
  assume d: "distinct xs" and s: "set xs = {a}"
  from s Cons have x: "x = a" by auto
  from d Cons have "x \<notin> set ys" by simp
  moreover from s Cons have "set ys \<subseteq> {a}" by auto
  ultimately have "ys = []" using x by (cases ys) auto
  with Cons x show ?thesis by simp
qed

lemma enumerates_distinct: "enumerates h \<Longrightarrow> distinct xs \<Longrightarrow> distinct (h xs)"
  by (simp add: enumerates_def)

lemma dict_get_absent: "\<not> has_key d k \<Longrightarrow> dict_get d k = JNull"
proof -
  assume "\<not> has_key d k"
  hence "map_of d k = None" by (simp add: has_key_def keys_def map_of_eq_None_iff)
  thus ?thesis by (simp add: dict_get_def dict_get_default_def)
qed

lemma missing_description_structure:
  assumes h: "enumerates h"
    and ks: "set (keys tool) = {''name'', ''type'', ''category''}"
    and nm: "dict_get tool ''name'' = JStr name" "nonblank (JStr name)"
    and ty: "dict_get tool ''type'' \<in> {JStr ''skill'', JStr ''command'', JStr ''agent'', JStr ''gem''}"
    and ct: "nonblank (dict_get tool ''category'')"
  shows "validate_tool_structure h tool i
         = Inr [''Tool '' @ quoted name @ '' is missing required field: description'']"
proof -
  let ?req = "h REQUIRED_TOOL_FIELDS"
  have hr: "set ?req = set REQUIRED_TOOL_FIELDS" "distinct ?req"
    using h distinct_required by (simp_all add: enumerates_set enumerates_distinct)
  let ?missing = "filter (\<lambda>f. \<not> has_key tool f) ?req"
  have "set ?missing = {''description''}"
    by (auto simp: hr(1) set_required has_key_def ks)
  moreover have "distinct ?missing" using hr(2) by simp
  ultimately have "?missing = [''description'']" by (intro distinct_singleton)
  moreover have "h [''description''] = [''description'']"
    using h by (intro distinct_singleton) (simp_all add: enumerates_set enumerates_distinct)
  ultimately have missing: "h ?missing = [''description'']" by simp
  have disallowed: "filter (\<lambda>f. f \<notin> set ALLOWED_TOOL_FIELDS) (keys tool) = []"
    by (auto simp: filter_empty_conv ALLOWED_TOOL_FIELDS_def set_required ks)
  have type_ok: "py_truthy (dict_get tool ''type'')"
    "set_contains VALID_TOOL_TYPES (dict_get tool ''type'') = Inr True"
    using ty by (auto simp: py_truthy_def set_contains_def py_hashable_def VALID_TOOL_TYPES_def)
  have "\<not> has_key tool ''description''" by (simp add: has_key_def ks)
  hence "dict_get tool ''description'' = JNull" by (rule dict_get_absent)
  hence desc: "check_field tool nm ''description'' = []" for nm
    by (simp add: check_field_def)
  have nb: "nonblank (dict_get tool ''name'')" using nm by simp
  have "check_field tool nm f = []" if "f \<in> set ?req" for f nm
  proof -
    from that have "f \<in> {''name'', ''type'', ''description'', ''category''}"
      by (simp add: hr(1) set_required)
    moreover have "nonblank (dict_get tool ''type'')" using ty by (auto simp: nonblank_def py_isspace_def in_range_def code_point_def)
    ultimately show ?thesis using desc nb ct by (auto simp: check_field_nonblank)
  qed
  hence fields: "concat (map (check_field tool nm) ?req) = []" for nm by simp
  have name: "py_str (dict_get_default tool ''name'' (default_name i)) = name"
  proof -
    have "has_key tool ''name''" by (simp add: has_key_def ks)
    hence "map_of tool ''name'' \<noteq> None" by (simp add: has_key_def keys_def map_of_eq_None_iff)
    hence "dict_get_default tool ''name'' (default_name i) = dict_get tool ''name''"
      by (auto simp: dict_get_def dict_get_default_def)
    thus ?thesis by (simp add: nm(1) py_str_def)
  qed
  show ?thesis
    unfolding validate_tool_structure_def Let_def missing disallowed name
    by (simp add: type_ok fields py_sorted_def)
qed

lemma add_tools_append:
  "add_tools md (xs @ ys) w = and_then (add_tools md xs w) (add_tools md ys)"
proof (induction xs arbitrary: w)
  case Nil
  show ?case by simp
next
  case (Cons x xs)
  show ?case by (cases "add_tool md x w") (simp_all add: Cons.IH)
qed

lemma add_tool_skips:
  "\<not> has_key tool ''description'' \<Longrightarrow> add_tool md (JObj tool) w = Inr w"
  by (simp add: add_tool_def required_keys_def Let_def)

lemma add_tools_skips:
  assumes "\<not> has_key tool ''description''"
  shows "add_tools md (pre @ JObj tool # post) w = add_tools md (pre @ post) w"
  unfolding add_tools_append
  by (cases "add_tools md pre w") (simp_all add: add_tool_skips [OF assms])

lemma build_website_data_skips:
  assumes "\<not> has_key tool ''description''"
  shows "build_website_data md ((''tools'', JList (pre @ JObj tool # post)) # rest)
         = build_website_data md ((''tools'', JList (pre @ post)) # rest)"
  by (simp add: build_website_data_def dict_item_def py_iter_def add_tools_skips [OF assms])

text \<open>
  C7, as the code has it. For a tool object with exactly the fields name, type and
  category, each a string with a character that is not white space and the type one of
  the four tool types, the per-tool check returns exactly one error, the one that names
  the missing description. The website builder emits no entry for such a tool: it skips
  the tool, and its output is the output for the catalog without that tool.
\<close>

theorem C7_tool_without_description:
  assumes "enumerates h"
    and "set (keys tool) = {''name'', ''type'', ''category''}"
    and "dict_get tool ''name'' = JStr name" and "nonblank (JStr name)"
    and "dict_get tool ''type'' \<in> {JStr ''skill'', JStr ''command'', JStr ''agent'', JStr ''gem''}"
    and "nonblank (dict_get tool ''category'')"
  shows "validate_tool_structure h tool i
           = Inr [''Tool '' @ quoted name @ '' is missing required field: description'']
         \<and> add_tool get_tool_metadata (JObj tool) website_tools = Inr website_tools
         \<and> build_website_data get_tool_metadata
               ((''tools'', JList (pre @ JObj tool # post)) # rest)
             = build_website_data get_tool_metadata ((''tools'', JList (pre @ post)) # rest)"
proof -
  have "\<not> has_key tool ''description''" using assms(2) by (simp add: has_key_def)
  thus ?thesis
    using missing_description_structure [OF assms]
    by (simp add: add_tool_skips build_website_data_skips)
qed

theorem C7_tool_without_description_witness:
  "enumerates (\<lambda>xs. xs)
   \<and> validate_tool_structure (\<lambda>xs. xs)
       [(''name'', JStr ''foo''), (''type'', JStr ''skill''), (''category'', JStr ''bar'')] 0
     = Inr [''Tool 'foo' is missing required field: description'']
   \<and> build_website_data fields_only
       [(''tools'', JList [JObj [(''name'', JStr ''foo''), (''type'', JStr ''skill''),
                                (''category'', JStr ''bar'')]]),
        (''categories'', JObj [])]
     = build_website_data fields_only [(''tools'', JList []), (''categories'', JObj [])]"
proof -
  let ?tool = "[(''name'', JStr ''foo''), (''type'', JStr ''skill''), (''category'', JStr ''bar'')]"
  have h: "enumerates (\<lambda>xs. xs)" by (rule identity_enumerates)
  have ks: "set (keys ?tool) = {''name'', ''type'', ''category''}" by (simp add: keys_def)
  have nm: "dict_get ?tool ''name'' = JStr ''foo''" by code_simp
  have nb: "nonblank (JStr ''foo'')" by code_simp
  have ty: "dict_get ?tool ''type'' \<in> {JStr ''skill'', JStr ''command'', JStr ''agent'', JStr ''gem''}"
    by (simp add: dict_get_def dict_get_default_def)
  have ct: "nonblank (dict_get ?tool ''category'')" by code_simp
  from C7_tool_without_description [OF h ks nm nb ty ct, of 0 fields_only _ "[]" "[]"
      "[(''categories'', JObj [])]"] h
  show ?thesis by (simp add: quoted_def squote_def)
qed

text \<open>
  The claim as stated fails in its second half: for the catalog with the single tool
  \<open>{name: foo, type: skill, category: bar}\<close> the builder returns a document whose four tool
  lists are empty, although the metadata reader of this run would have given an entry.
\<close>

theorem C7_builder_emits_no_entry_counterexample:
  "build_website_data fields_only
     [(''tools'', JList [JObj [(''name'', JStr ''foo''), (''type'', JStr ''skill''),
                              (''category'', JStr ''bar'')]]),
      (''categories'', JObj [])]
   = Inr (JObj [(''name'', JStr ''odh-ai-helpers''),
                (''owner'', JStr ''ODH''),
                (''categories'', JObj [(''categories'', JObj [])]),
                (''tools'', JObj [(''gemini'', JList []), (''skills'', JList []),
                                  (''commands'', JList []), (''agents'', JList [])])])"
  by code_simp

section \<open>The marketplace document\<close>






end
